theory Spec2Isabelle
  imports Complex_Main "HOL-Library.AList" "HOL-Library.Monad_Syntax"
begin

section \<open>Conventions of the embedding\<close>

text \<open>
  The program is TypeScript. Its numbers are modelled as follows: counters are \<open>nat\<close>,
  timestamps (milliseconds of \<open>Date.now()\<close>) are \<open>int\<close>, and every other number is a
  \<open>real\<close>, i.e. the arithmetic of the source is read without rounding. Complex amplitudes
  (mathjs \<open>Complex\<close>) are \<open>complex\<close>.

  A JavaScript \<open>Map\<close> keeps its keys in insertion order and the program reads that order
  (\<open>Array.from(m.entries())\<close>), so a \<open>Map\<close> is an association list with distinct keys:
  \<open>AList.update\<close> overwrites a present key in place and appends a new key at the end, as
  \<open>Map.prototype.set\<close> does. A \<open>Set\<close> is a duplicate-free list in insertion order.

  \<open>Math.random()\<close> is a stream \<open>rnd :: nat \<Rightarrow> real\<close> together with the number of draws made
  so far; the \<open>k\<close>-th call returns \<open>rnd k\<close>. \<open>Date.now()\<close> is a parameter: \<open>now\<close> where it is
  read once, a function \<open>clock\<close> of the loop iteration where it is read in a loop.
  Characters are code units below 256; there \<open>toLowerCase\<close> maps \<open>A\<close>..\<open>Z\<close> to \<open>a\<close>..\<open>z\<close> and
  sends no other code unit to a word character, so the model lower-cases \<open>A\<close>..\<open>Z\<close> only.
\<close>

type_synonym rng = "nat \<Rightarrow> real"

section \<open>Tokenizer\<close>

text \<open>\<open>text.toLowerCase().match(/\b\w+\b/g) || []\<close>: the maximal runs of word characters
  (\<open>[A-Za-z0-9_]\<close>) of the lower-cased text, in order.\<close>

definition upperCaseLetters :: string where
  "upperCaseLetters = ''ABCDEFGHIJKLMNOPQRSTUVWXYZ''"

definition lowerCaseLetters :: string where
  "lowerCaseLetters = ''abcdefghijklmnopqrstuvwxyz''"

definition toLowerChar :: "char \<Rightarrow> char" where
  "toLowerChar c =
     (case map_of (zip upperCaseLetters lowerCaseLetters) c of Some d \<Rightarrow> d | None \<Rightarrow> c)"

definition toLowerCase :: "string \<Rightarrow> string" where
  "toLowerCase s = map toLowerChar s"

definition isWordChar :: "char \<Rightarrow> bool" where
  "isWordChar c \<longleftrightarrow> c \<in> set (lowerCaseLetters @ upperCaseLetters @ ''0123456789_'')"

fun matchWords :: "string \<Rightarrow> string \<Rightarrow> string list" where
  "matchWords cur [] = (if cur = [] then [] else [cur])"
| "matchWords cur (c # cs) =
     (if isWordChar c then matchWords (cur @ [c]) cs
      else if cur = [] then matchWords [] cs
      else cur # matchWords [] cs)"

definition tokenize :: "string \<Rightarrow> string list" where
  "tokenize t = matchWords [] (toLowerCase t)"

section \<open>DocumentProcessor.ts: the word-transition table\<close>

record WordData =
  wd_word :: string
  frequency :: nat
  wd_hue :: real
  wd_saturation :: real
  nextWords :: "(string \<times> nat) list"
  totalTransitions :: nat

type_synonym words = "(string \<times> WordData) list"

text \<open>\<open>addWordTransition\<close>: state is the static \<open>words\<close> map and the number of random draws.\<close>

definition addWordTransition :: "rng \<Rightarrow> string \<Rightarrow> string \<Rightarrow> words \<times> nat \<Rightarrow> words \<times> nat" where
  "addWordTransition rnd currentWord nextWord st =
     (let (ws, k) = st;
          (ws1, k1) =
            (if map_of ws currentWord = None
             then (AList.update currentWord
                     \<lparr>wd_word = currentWord, frequency = 0, wd_hue = rnd k,
                      wd_saturation = 0.5 + rnd (k + 1) * 0.5, nextWords = [],
                      totalTransitions = 0\<rparr> ws, k + 2)
             else (ws, k))
      in case map_of ws1 currentWord of
           None \<Rightarrow> (ws1, k1)
         | Some wordData \<Rightarrow>
             (AList.update currentWord
                (wordData\<lparr>frequency := frequency wordData + 1,
                   totalTransitions := totalTransitions wordData + 1,
                   nextWords := AList.update nextWord
                     ((case map_of (nextWords wordData) nextWord of None \<Rightarrow> 0 | Some c \<Rightarrow> c) + 1)
                     (nextWords wordData)\<rparr>) ws1, k1))"

text \<open>The loop \<open>for (i = 0; i < words.length - 1; i++)\<close> over consecutive pairs.\<close>

fun addTransitions :: "rng \<Rightarrow> string list \<Rightarrow> words \<times> nat \<Rightarrow> words \<times> nat" where
  "addTransitions rnd (currentWord # nextWord # rest) st =
     addTransitions rnd (nextWord # rest) (addWordTransition rnd currentWord nextWord st)"
| "addTransitions rnd _ st = st"

definition DocumentProcessor_processText :: "rng \<Rightarrow> string \<Rightarrow> words \<times> nat \<Rightarrow> words \<times> nat" where
  "DocumentProcessor_processText rnd t st = addTransitions rnd (tokenize t) st"

text \<open>\<open>getNextWordProbabilities\<close>: \<open>Array.prototype.sort\<close> is stable, and so is \<open>sort_key\<close>;
  the comparator \<open>b.probability - a.probability\<close> orders by descending probability.\<close>

definition getNextWordProbabilities :: "words \<Rightarrow> string \<Rightarrow> (string \<times> real) list" where
  "getNextWordProbabilities ws currentWord =
     (case map_of ws currentWord of
        None \<Rightarrow> []
      | Some wordData \<Rightarrow>
          sort_key (\<lambda>e. - snd e)
            (map (\<lambda>(w, c). (w, real c / real (totalTransitions wordData))) (nextWords wordData)))"

text \<open>What every reachable table satisfies: keys are distinct and \<open>totalTransitions\<close> counts
  the outgoing transitions.\<close>

definition words_inv :: "words \<Rightarrow> bool" where
  "words_inv ws \<longleftrightarrow>
     distinct (map fst ws) \<and>
     (\<forall>(w, d) \<in> set ws. distinct (map fst (nextWords d)) \<and>
        totalTransitions d = sum_list (map snd (nextWords d)))"

section \<open>The memory component: data model\<close>

text \<open>
  The React component that owns the word graph (\<open>Memory\<close>), with its constants. In
  \<open>WordNode\<close> the field \<open>next\<close> is written \<open>next'\<close>; an entry \<open>{word, count}\<close> of that map
  repeats its key in \<open>word\<close>, so the map is kept as word \<open>\<mapsto>\<close> count. The field \<open>phase\<close> of
  \<open>HolographicPattern\<close> is written \<open>pphase\<close>, and the coordinates of \<open>THREE.Vector3\<close> are
  \<open>vx\<close>, \<open>vy\<close>, \<open>vz\<close>.
\<close>

record QuantumState =
  amplitude :: complex
  phase :: real

record HolographicPattern =
  intensity :: "real list"
  pphase :: "real list"

record Color =
  hue :: real
  saturation :: real
  brightness :: real
  alpha :: real

record Vector3 =
  vx :: real
  vy :: real
  vz :: real

record WordNode =
  word :: string
  count :: nat
  next' :: "(string \<times> nat) list"
  color :: Color
  documents :: "string list"
  lastAccessed :: int
  strength :: real
  quantumState :: QuantumState
  holographicPattern :: HolographicPattern
  entangledNodes :: "string list"
  position :: Vector3

type_synonym nodeMap = "(string \<times> WordNode) list"

record Memory =
  nodes :: nodeMap
  totalDocuments :: nat
  lastConsolidation :: int
  quantumCoherence :: real
  documentContents :: "(string \<times> string) list"

definition MEMORY_KEY_PREFIX :: string where
  "MEMORY_KEY_PREFIX = ''quantum_holographic_network_''"

definition CHUNK_SIZE :: nat where
  "CHUNK_SIZE = 1024 * 1024"

definition MAX_CHUNKS :: nat where
  "MAX_CHUNKS = 10"

definition CONSOLIDATION_INTERVAL :: real where
  "CONSOLIDATION_INTERVAL = 1000 * 60 * 60"

definition MEMORY_DECAY_RATE :: real where
  "MEMORY_DECAY_RATE = 0.1"

definition MAX_MEMORY_STRENGTH :: real where
  "MAX_MEMORY_STRENGTH = 5"

definition QUANTUM_COHERENCE_DECAY :: real where
  "QUANTUM_COHERENCE_DECAY = 0.05"

definition MAX_DOCUMENT_SIZE :: nat where
  "MAX_DOCUMENT_SIZE = 1000000"

text \<open>\<open>Set.prototype.add\<close>: a present element keeps its place, a new one goes last.\<close>

definition setAdd :: "'a \<Rightarrow> 'a list \<Rightarrow> 'a list" where
  "setAdd a xs = (if a \<in> set xs then xs else xs @ [a])"

text \<open>The remainder operator \<open>a % b\<close> on numbers: the quotient is truncated towards zero.\<close>

definition js_rem :: "real \<Rightarrow> real \<Rightarrow> real" where
  "js_rem a b = a - b * of_int (if a / b < 0 then \<lceil>a / b\<rceil> else \<lfloor>a / b\<rfloor>)"

section \<open>Quantum and holographic functions\<close>

definition createQuantumState :: "rng \<Rightarrow> nat \<Rightarrow> QuantumState \<times> nat" where
  "createQuantumState rnd k =
     (\<lparr>amplitude = Complex (rnd k) (rnd (k + 1)), phase = rnd (k + 2) * 2 * pi\<rparr>, k + 3)"

definition applyHadamardGate :: "QuantumState \<Rightarrow> QuantumState" where
  "applyHadamardGate state =
     (let newAmplitude = amplitude state * of_real (1 / sqrt 2)
      in \<lparr>amplitude = newAmplitude, phase = phase state\<rparr>)"

definition applyCNOTGate :: "QuantumState \<Rightarrow> QuantumState \<Rightarrow> QuantumState \<times> QuantumState" where
  "applyCNOTGate control target =
     (if cmod (amplitude control) > 0.5
      then (control, \<lparr>amplitude = - amplitude target, phase = phase target\<rparr>)
      else (control, target))"

definition quantumInterference :: "QuantumState \<Rightarrow> QuantumState \<Rightarrow> real" where
  "quantumInterference state1 state2 =
     (let phaseDifference = phase state1 - phase state2;
          amplitudeProduct = amplitude state1 * cnj (amplitude state2)
      in cmod amplitudeProduct * cos phaseDifference)"

definition patternSize :: nat where
  "patternSize = 32"

definition createHolographicPattern :: "rng \<Rightarrow> nat \<Rightarrow> QuantumState \<Rightarrow> HolographicPattern \<times> nat" where
  "createHolographicPattern rnd k state =
     (\<lparr>intensity = replicate (patternSize * patternSize) ((cmod (amplitude state))\<^sup>2),
       pphase = map (\<lambda>i. phase state + rnd (k + i) * 0.1) [0..<patternSize * patternSize]\<rparr>,
      k + patternSize * patternSize)"

text \<open>An index beyond the second pattern reads \<open>undefined\<close> in the source; the patterns this
  program builds all have \<open>patternSize * patternSize\<close> entries.\<close>

definition holographicInterference :: "HolographicPattern \<Rightarrow> HolographicPattern \<Rightarrow> HolographicPattern" where
  "holographicInterference pattern1 pattern2 =
     \<lparr>intensity = map (\<lambda>i. intensity pattern1 ! i + intensity pattern2 ! i)
                    [0..<length (intensity pattern1)],
      pphase = map (\<lambda>i. js_rem (pphase pattern1 ! i + pphase pattern2 ! i) (2 * pi))
                    [0..<length (pphase pattern1)]\<rparr>"

text \<open>On a pattern without entries the source divides 0 by 0 and gives \<open>NaN\<close>, which the
  reals do not have; statements about the reconstructed state are made for non-empty
  patterns.\<close>

definition reconstructHologram :: "HolographicPattern \<Rightarrow> QuantumState" where
  "reconstructHologram pattern =
     (let totalIntensity = foldl (+) 0 (intensity pattern);
          averagePhase = foldl (+) 0 (pphase pattern) / real (length (pphase pattern))
      in \<lparr>amplitude = Complex (sqrt (totalIntensity / real (length (intensity pattern)))) 0,
          phase = averagePhase\<rparr>)"

section \<open>Ingest: \<open>applyQuantumOperation\<close> and \<open>processText\<close>\<close>

text \<open>
  \<open>processText\<close> works on \<open>newNodes = new Map(memory.nodes)\<close>, a copy of the map that shares
  its node objects with \<open>memory.nodes\<close>. The model keeps one node map \<open>ns\<close> (the state of
  \<open>newNodes\<close>) and the list \<open>old\<close> of the keys of \<open>memory.nodes\<close>: \<open>memory.nodes.get(w)\<close> is the
  node of \<open>ns\<close> under \<open>w\<close> when \<open>w\<close> is in \<open>old\<close>, and \<open>undefined\<close> otherwise. Assigning to a
  field of a node object is \<open>AList.map_entry\<close> at its key.

  \<open>applyQuantumOperation\<close> receives the node object; here it receives the key \<open>w\<close> of that
  node in \<open>newNodes\<close>.
\<close>

definition applyQuantumOperation :: "string list \<Rightarrow> string \<Rightarrow> nodeMap \<Rightarrow> nodeMap" where
  "applyQuantumOperation old w ns =
     (case map_of ns w of
        None \<Rightarrow> ns
      | Some node \<Rightarrow>
          (let phase' = phase (quantumState node) + pi * strength node / MAX_MEMORY_STRENGTH;
               amplitude' =
                 (if cmod (amplitude (quantumState node) * 1.1) \<le> 1
                  then amplitude (quantumState node) * 1.1
                  else amplitude (quantumState node));
               ns1 = AList.map_entry w
                 (\<lambda>n. n\<lparr>quantumState := \<lparr>amplitude = amplitude', phase = js_rem phase' (2 * pi)\<rparr>\<rparr>)
                 ns
           in fold (\<lambda>entangledWord s.
                      if entangledWord \<in> set old
                      then AList.map_entry entangledWord
                             (\<lambda>entangledNode. entangledNode\<lparr>quantumState :=
                                (quantumState entangledNode)\<lparr>phase := js_rem (phase' + pi) (2 * pi)\<rparr>\<rparr>)
                             s
                      else s)
                (entangledNodes node) ns1))"

text \<open>One iteration of the loop of \<open>processText\<close>, for the pair at index \<open>i\<close>; \<open>clock i\<close> is
  the reading of \<open>Date.now()\<close> in that iteration and \<open>k\<close> the number of random draws so far.\<close>

definition createNode ::
  "rng \<Rightarrow> (nat \<Rightarrow> int) \<Rightarrow> string \<Rightarrow> nat \<Rightarrow> string \<Rightarrow> string \<Rightarrow> nat \<Rightarrow> WordNode \<times> nat" where
  "createNode rnd clock documentId i currentWord nextWord k =
     (let (quantumState', k1) = createQuantumState rnd k;
          hue' = rnd k1 * 360;
          (pattern, k3) = createHolographicPattern rnd (k1 + 1) quantumState'
      in (\<lparr>word = currentWord, count = 1, next' = [(nextWord, 1)],
           color = \<lparr>hue = hue', saturation = 50, brightness = 50, alpha = 0.5\<rparr>,
           documents = [documentId], lastAccessed = clock i, strength = 1,
           quantumState = quantumState', holographicPattern = pattern,
           entangledNodes = [nextWord],
           position = \<lparr>vx = (rnd k3 - 0.5) * 10, vy = (rnd (k3 + 1) - 0.5) * 10,
                        vz = (rnd (k3 + 2) - 0.5) * 10\<rparr>\<rparr>,
          k3 + 3))"

definition coupleNext :: "string \<Rightarrow> string \<Rightarrow> nodeMap \<Rightarrow> nodeMap" where
  "coupleNext currentWord nextWord ns =
     (case (map_of ns currentWord, map_of ns nextWord) of
        (Some node, Some nextNode) \<Rightarrow>
          (let (control, target) = applyCNOTGate (quantumState node) (quantumState nextNode);
               ns1 = AList.map_entry currentWord (\<lambda>n. n\<lparr>quantumState := control\<rparr>) ns;
               ns2 = AList.map_entry nextWord (\<lambda>n. n\<lparr>quantumState := target\<rparr>) ns1
           in AList.map_entry currentWord
                (\<lambda>n. n\<lparr>holographicPattern :=
                   holographicInterference (holographicPattern n) (holographicPattern nextNode)\<rparr>)
                ns2)
      | _ \<Rightarrow> ns)"

definition reinforceNode ::
  "rng \<Rightarrow> (nat \<Rightarrow> int) \<Rightarrow> string list \<Rightarrow> string \<Rightarrow> nat \<Rightarrow> string \<Rightarrow> string \<Rightarrow> nodeMap \<times> nat
     \<Rightarrow> nodeMap \<times> nat" where
  "reinforceNode rnd clock old documentId i currentWord nextWord st =
     (let (ns, k) = st;
          ns1 = AList.map_entry currentWord
                  (\<lambda>node. node\<lparr>count := count node + 1,
                     documents := setAdd documentId (documents node),
                     lastAccessed := clock i,
                     strength := min (strength node + 0.1) MAX_MEMORY_STRENGTH,
                     entangledNodes := setAdd nextWord (entangledNodes node)\<rparr>) ns;
          ns2 = applyQuantumOperation old currentWord ns1;
          ns3 = AList.map_entry currentWord
                  (\<lambda>node. node\<lparr>quantumState := applyHadamardGate (quantumState node)\<rparr>) ns2;
          ns4 = AList.map_entry currentWord
                  (\<lambda>node. node\<lparr>holographicPattern :=
                     fst (createHolographicPattern rnd k (quantumState node))\<rparr>) ns3;
          ns5 = AList.map_entry currentWord
                  (\<lambda>node. node\<lparr>next' := AList.update nextWord
                     (case map_of (next' node) nextWord of Some c \<Rightarrow> c + 1 | None \<Rightarrow> 1)
                     (next' node)\<rparr>) ns4
      in (coupleNext currentWord nextWord ns5, k + patternSize * patternSize))"

definition processPair ::
  "rng \<Rightarrow> (nat \<Rightarrow> int) \<Rightarrow> string list \<Rightarrow> string \<Rightarrow> nat \<Rightarrow> string \<Rightarrow> string \<Rightarrow> nodeMap \<times> nat
     \<Rightarrow> nodeMap \<times> nat" where
  "processPair rnd clock old documentId i currentWord nextWord st =
     (if map_of (fst st) currentWord = None
      then (let (node, k') = createNode rnd clock documentId i currentWord nextWord (snd st)
            in (AList.update currentWord node (fst st), k'))
      else reinforceNode rnd clock old documentId i currentWord nextWord st)"

fun processPairs ::
  "rng \<Rightarrow> (nat \<Rightarrow> int) \<Rightarrow> string list \<Rightarrow> string \<Rightarrow> nat \<Rightarrow> string list \<Rightarrow> nodeMap \<times> nat
     \<Rightarrow> nodeMap \<times> nat" where
  "processPairs rnd clock old documentId i (currentWord # nextWord # rest) st =
     processPairs rnd clock old documentId (i + 1) (nextWord # rest)
       (processPair rnd clock old documentId i currentWord nextWord st)"
| "processPairs rnd clock old documentId i _ st = st"

text \<open>
  What a call hands back to its caller: \<open>processText\<close> has no \<open>return\<close> statement and no
  \<open>throw\<close>, so every call completes with \<open>undefined\<close>.
\<close>

datatype completion = ReturnsUndefined | Throws string

text \<open>
  The result of \<open>processText\<close> lists its effects and its completion: the lines it wrote
  with \<open>console.warn\<close>, the memory passed to \<open>setMemory\<close>, the number of random draws, and
  what the caller receives. The calls \<open>updateStats\<close> and \<open>saveMemory\<close> at its end do not change
  the memory and are modelled separately (\<open>saveMemory\<close> below).
\<close>

definition oversizeWarning :: string where
  "oversizeWarning = ''Document size exceeds limit. Processing first 1000000 characters.''"

definition processText ::
  "rng \<Rightarrow> (nat \<Rightarrow> int) \<Rightarrow> Memory \<Rightarrow> nat \<Rightarrow> string \<Rightarrow> string
     \<Rightarrow> string list \<times> Memory \<times> nat \<times> completion" where
  "processText rnd clock memory k text documentId =
     (let (warnings, text1) =
            (if length text > MAX_DOCUMENT_SIZE
             then ([oversizeWarning], take MAX_DOCUMENT_SIZE text)
             else ([], text));
          words = tokenize text1;
          newDocumentContents = AList.update documentId text1 (documentContents memory);
          (newNodes, k') =
            processPairs rnd clock (map fst (nodes memory)) documentId 0 words (nodes memory, k);
          newCoherence = max 0 (quantumCoherence memory * (1 - QUANTUM_COHERENCE_DECAY))
      in (warnings,
          memory\<lparr>nodes := newNodes, totalDocuments := totalDocuments memory + 1,
                 quantumCoherence := newCoherence, documentContents := newDocumentContents\<rparr>,
          k', ReturnsUndefined))"

section \<open>Consolidation\<close>

text \<open>\<open>newNodes.forEach\<close> visits every entry once, also when the entry just visited is
  deleted; \<open>now\<close> is the reading of \<open>Date.now()\<close> at the start of \<open>consolidateMemory\<close>.\<close>

fun consolidateNodes :: "int \<Rightarrow> nodeMap \<Rightarrow> nodeMap" where
  "consolidateNodes now [] = []"
| "consolidateNodes now ((w, node) # rest) =
     (let timeDiff = real_of_int (now - lastAccessed node) / CONSOLIDATION_INTERVAL;
          node' = node\<lparr>strength := strength node * exp (- MEMORY_DECAY_RATE * timeDiff)\<rparr>
      in if strength node' < 0.1 then consolidateNodes now rest
         else (w, node') # consolidateNodes now rest)"

definition consolidateMemory :: "int \<Rightarrow> Memory \<Rightarrow> Memory" where
  "consolidateMemory now memory =
     memory\<lparr>nodes := consolidateNodes now (nodes memory), lastConsolidation := now\<rparr>"

text \<open>The factor by which \<open>consolidateMemory\<close> multiplies the strength of a node.\<close>

definition decayFactor :: "int \<Rightarrow> WordNode \<Rightarrow> real" where
  "decayFactor now node =
     exp (- MEMORY_DECAY_RATE * (real_of_int (now - lastAccessed node) / CONSOLIDATION_INTERVAL))"

section \<open>Sample states for closed instances\<close>

text \<open>A node with the given word, strength and last access, unit amplitude, phase zero and
  nothing else; and a memory around a node map.\<close>

definition sampleNode :: "string \<Rightarrow> real \<Rightarrow> int \<Rightarrow> WordNode" where
  "sampleNode w s t =
     \<lparr>word = w, count = 1, next' = [],
      color = \<lparr>hue = 0, saturation = 50, brightness = 50, alpha = 0.5\<rparr>,
      documents = [], lastAccessed = t, strength = s,
      quantumState = \<lparr>amplitude = 1, phase = 0\<rparr>,
      holographicPattern = \<lparr>intensity = [], pphase = []\<rparr>,
      entangledNodes = [], position = \<lparr>vx = 0, vy = 0, vz = 0\<rparr>\<rparr>"

definition sampleMemory :: "nodeMap \<Rightarrow> Memory" where
  "sampleMemory ns =
     \<lparr>nodes = ns, totalDocuments = 0, lastConsolidation = 0, quantumCoherence = 1,
      documentContents = []\<rparr>"

definition sampleAmplitude :: "complex \<Rightarrow> WordNode \<Rightarrow> WordNode" where
  "sampleAmplitude z n = n\<lparr>quantumState := \<lparr>amplitude = z, phase = 0\<rparr>\<rparr>"


section \<open>Predicates used in the statements\<close>

text \<open>Every node of the map has an amplitude of magnitude at most \<open>b\<close>.\<close>

definition ampBound :: "real \<Rightarrow> nodeMap \<Rightarrow> bool" where
  "ampBound b ns \<longleftrightarrow> (\<forall>e \<in> set ns. cmod (amplitude (quantumState (snd e))) \<le> b)"

text \<open>The nodes under \<open>w\<close> in two maps agree in every field except possibly \<open>quantumState\<close>
  (and \<open>w\<close> is a key of both or of neither).\<close>

definition sameUpToQuantum :: "nodeMap \<Rightarrow> nodeMap \<Rightarrow> string \<Rightarrow> bool" where
  "sameUpToQuantum ns ns' w =
     (case (map_of ns w, map_of ns' w) of
        (None, None) \<Rightarrow> True
      | (Some n, Some n') \<Rightarrow> n' = n\<lparr>quantumState := quantumState n'\<rparr>
      | _ \<Rightarrow> False)"

section \<open>Generation: the walk of \<open>generateResponse\<close>\<close>

text \<open>
  The branch of \<open>generateResponse\<close> taken when no Hugging Face backend is connected. The
  body of its \<open>while\<close> loop is split into \<open>visitNode\<close> (the update of the current node),
  \<open>sortNextWords\<close> (its result is the array \<open>nextWords\<close>), \<open>totalStrength\<close>, \<open>pickNextWord\<close> (the \<open>for\<close> loop of the draw) and
  \<open>generateStep\<close>; \<open>strengthOr0 ns w\<close> is \<open>memory.nodes.get(w)?.strength || 0\<close>.
  \<open>Array.prototype.sort\<close> is stable (ECMAScript 2019), as \<open>sort_key\<close> is, and the comparator
  \<open>key b - key a\<close> sorts by descending key.
\<close>

definition entangledBoost :: real where
  "entangledBoost = 1.5"

definition maxLength :: nat where
  "maxLength = 100"

definition strengthOr0 :: "nodeMap \<Rightarrow> string \<Rightarrow> real" where
  "strengthOr0 ns w = (case map_of ns w of None \<Rightarrow> 0 | Some n \<Rightarrow> strength n)"

definition boostOf :: "WordNode \<Rightarrow> string \<Rightarrow> real" where
  "boostOf node w = (if w \<in> set (entangledNodes node) then entangledBoost else 1)"

definition visitNode :: "(nat \<Rightarrow> int) \<Rightarrow> real \<Rightarrow> nat \<Rightarrow> string \<Rightarrow> WordNode \<Rightarrow> nodeMap \<Rightarrow> nodeMap" where
  "visitNode clock coherence i currentWord node ns =
     (let interference =
            quantumInterference (quantumState node) \<lparr>amplitude = Complex coherence 0, phase = 0\<rparr>
      in AList.map_entry currentWord
           (\<lambda>n. n\<lparr>lastAccessed := clock i,
                   strength := min (strength n + 0.05 * (1 + interference)) MAX_MEMORY_STRENGTH\<rparr>)
           ns)"

definition sortNextWords :: "nodeMap \<Rightarrow> WordNode \<Rightarrow> (string \<times> nat) list" where
  "sortNextWords ns node =
     sort_key (\<lambda>e. - (real (snd e) * strengthOr0 ns (fst e) * boostOf node (fst e))) (next' node)"

definition totalStrength :: "nodeMap \<Rightarrow> WordNode \<Rightarrow> (string \<times> nat) list \<Rightarrow> real" where
  "totalStrength ns node sortedWords =
     foldl (\<lambda>sum e. sum + strengthOr0 ns (fst e) * boostOf node (fst e)) 0 sortedWords"

fun pickNextWord :: "nodeMap \<Rightarrow> WordNode \<Rightarrow> real \<Rightarrow> (string \<times> nat) list \<Rightarrow> string option" where
  "pickNextWord ns node random [] = None"
| "pickNextWord ns node random (e # rest) =
     (case map_of ns (fst e) of
        None \<Rightarrow> pickNextWord ns node random rest
      | Some nextNode \<Rightarrow>
          (let random' = random - strength nextNode * boostOf node (fst e)
           in if random' \<le> 0 then Some (fst e) else pickNextWord ns node random' rest))"

text \<open>One iteration of the loop up to \<open>response.push(nextWord)\<close>: the word chosen, the node
  map and the number of random draws; \<open>i\<close> indexes the reading of \<open>Date.now()\<close>.\<close>

definition generateStep ::
  "rng \<Rightarrow> (nat \<Rightarrow> int) \<Rightarrow> real \<Rightarrow> nat \<Rightarrow> string \<Rightarrow> WordNode \<Rightarrow> nodeMap \<times> nat
     \<Rightarrow> string \<times> nodeMap \<times> nat" where
  "generateStep rnd clock coherence i currentWord node st =
     (let ns1 = visitNode clock coherence i currentWord node (fst st);
          sortedWords = sortNextWords ns1 node;
          random = rnd (snd st) * totalStrength ns1 node sortedWords;
          nextWord =
            (case pickNextWord ns1 node random sortedWords of
               Some w \<Rightarrow> w
             | None \<Rightarrow> (case sortedWords of [] \<Rightarrow> [] | e # _ \<Rightarrow> fst e));
          ns2 = AList.map_entry nextWord
                  (\<lambda>selectedNode. selectedNode\<lparr>quantumState :=
                     reconstructHologram (holographicPattern selectedNode)\<rparr>) ns1
      in (nextWord, ns2, snd st + 1))"

function generateLoop ::
  "rng \<Rightarrow> (nat \<Rightarrow> int) \<Rightarrow> real \<Rightarrow> string \<Rightarrow> string list \<Rightarrow> nodeMap \<times> nat
     \<Rightarrow> string list \<times> nodeMap \<times> nat" where
  "generateLoop rnd clock coherence currentWord response st =
     (if length response < maxLength then
        (case map_of (fst st) currentWord of
           None \<Rightarrow> (response, st)
         | Some node \<Rightarrow>
             if next' node = [] then (response, st)
             else
               (let r = generateStep rnd clock coherence (length response) currentWord node st;
                    response' = response @ [fst r]
                in if length response' \<ge> 20
                   then (if rnd (snd (snd r)) < 0.1
                         then (response', fst (snd r), snd (snd r) + 1)
                         else generateLoop rnd clock coherence (fst r) response'
                                (fst (snd r), snd (snd r) + 1))
                   else generateLoop rnd clock coherence (fst r) response' (snd r)))
      else (response, st))"
  by pat_completeness auto
termination
  by (relation "measure (\<lambda>(rnd, clock, coherence, currentWord, response, st).
                  maxLength - length response)") auto

text \<open>\<open>response.join(' ')\<close>. The walk mutates the nodes of \<open>memory.nodes\<close> in place, so
  \<open>generateResponse\<close> returns the memory next to the text; its call of \<open>saveMemory\<close> does not
  change the memory.\<close>

fun joinWords :: "string list \<Rightarrow> string" where
  "joinWords [] = []"
| "joinWords [w] = w"
| "joinWords (w # ws) = w @ '' '' @ joinWords ws"

definition generateResponse ::
  "rng \<Rightarrow> (nat \<Rightarrow> int) \<Rightarrow> Memory \<Rightarrow> nat \<Rightarrow> string \<Rightarrow> string \<times> Memory \<times> nat" where
  "generateResponse rnd clock memory k input =
     (let words = tokenize input
      in if words = [] then ([], memory, k)
         else (let r = generateLoop rnd clock (quantumCoherence memory) (last words) words
                         (nodes memory, k)
               in (joinWords (fst r), memory\<lparr>nodes := fst (snd r)\<rparr>, snd (snd r))))"

section \<open>The draw as the specification words it\<close>




section \<open>Persistence: \<open>saveMemory\<close> and \<open>loadMemory\<close>\<close>

text \<open>
  The values that \<open>JSON.stringify\<close> takes and \<open>JSON.parse\<close> gives. \<open>saveMemory\<close> first builds
  such a value from the memory (maps and sets become arrays, the complex amplitude becomes
  \<open>{re, im}\<close>, the position becomes \<open>{x, y, z}\<close>); \<open>loadMemory\<close> rebuilds the memory from the
  parsed value. Both conversions are the repository's code and are embedded here as
  \<open>plainNode\<close>, \<open>plainMemory\<close> and \<open>nodeOfPlain\<close>, \<open>memoryOfPlain\<close>. The two built-ins themselves
  are parameters: \<open>stringify :: json \<Rightarrow> string\<close> and \<open>parse :: string \<Rightarrow> json option\<close>, where
  \<open>None\<close> is the \<open>SyntaxError\<close> of \<open>JSON.parse\<close>.
\<close>

datatype json =
  JNull
  | JBool bool
  | JNumber real
  | JString string
  | JArray "json list"
  | JObject "(string \<times> json) list"

text \<open>The object literal of \<open>saveMemory\<close> for one node: the spread \<open>...value\<close> lists the
  properties in the order in which \<open>processText\<close> created them, and the properties named
  after it replace their values in place. An entry of \<open>next\<close> is \<open>[word, {word, count}]\<close>.\<close>

definition plainNode :: "WordNode \<Rightarrow> json" where
  "plainNode value =
     JObject
       [(''word'', JString (word value)),
        (''count'', JNumber (real (count value))),
        (''next'', JArray (map (\<lambda>e. JArray [JString (fst e),
                      JObject [(''word'', JString (fst e)), (''count'', JNumber (real (snd e)))]])
                    (next' value))),
        (''color'', JObject [(''hue'', JNumber (hue (color value))),
                             (''saturation'', JNumber (saturation (color value))),
                             (''brightness'', JNumber (brightness (color value))),
                             (''alpha'', JNumber (alpha (color value)))]),
        (''documents'', JArray (map JString (documents value))),
        (''lastAccessed'', JNumber (real_of_int (lastAccessed value))),
        (''strength'', JNumber (strength value)),
        (''quantumState'',
           JObject [(''amplitude'', JObject [(''re'', JNumber (Re (amplitude (quantumState value)))),
                                             (''im'', JNumber (Im (amplitude (quantumState value))))]),
                    (''phase'', JNumber (phase (quantumState value)))]),
        (''holographicPattern'',
           JObject [(''intensity'', JArray (map JNumber (intensity (holographicPattern value)))),
                    (''phase'', JArray (map JNumber (pphase (holographicPattern value))))]),
        (''entangledNodes'', JArray (map JString (entangledNodes value))),
        (''position'', JObject [(''x'', JNumber (vx (position value))),
                                (''y'', JNumber (vy (position value))),
                                (''z'', JNumber (vz (position value)))])]"

definition plainMemory :: "Memory \<Rightarrow> json" where
  "plainMemory memory =
     JObject
       [(''nodes'', JArray (map (\<lambda>e. JArray [JString (fst e), plainNode (snd e)]) (nodes memory))),
        (''totalDocuments'', JNumber (real (totalDocuments memory))),
        (''lastConsolidation'', JNumber (real_of_int (lastConsolidation memory))),
        (''quantumCoherence'', JNumber (quantumCoherence memory)),
        (''documentContents'',
           JArray (map (\<lambda>e. JArray [JString (fst e), JString (snd e)]) (documentContents memory)))]"

text \<open>
  Reading a parsed value. \<open>jfield\<close> is a property read; the readers \<open>jnumber\<close>, \<open>jnat\<close>, \<open>jint\<close>,
  \<open>jstring\<close> and \<open>jstrings\<close> accept the values of the type that the field has in \<open>Memory\<close>.
  \<open>iterableOrEmpty\<close> is the argument of \<open>new Map(\<dots>)\<close> and \<open>new Set(\<dots>)\<close>: an array gives its
  elements, \<open>undefined\<close> and \<open>null\<close> give none, anything else throws. \<open>newMap\<close> and \<open>newSet\<close> are
  the constructors: a repeated key keeps its first place and takes the last value.

  \<open>nodeOfPlain\<close> and \<open>memoryOfPlain\<close> are \<open>None\<close> where the rebuilding code throws inside its
  \<open>try\<close> (for instance on a parsed value without \<open>nodes\<close>, or a node without \<open>position\<close> or
  \<open>quantumState\<close>) and also where it would install a field of another type than \<open>Memory\<close>
  declares, which the typed record cannot hold.
\<close>

fun jfield :: "string \<Rightarrow> json \<Rightarrow> json option" where
  "jfield key (JObject props) = map_of props key"
| "jfield key _ = None"

fun jnumber :: "json \<Rightarrow> real option" where
  "jnumber (JNumber r) = Some r"
| "jnumber _ = None"

fun jnat :: "json \<Rightarrow> nat option" where
  "jnat (JNumber r) = (if r = real (nat \<lfloor>r\<rfloor>) then Some (nat \<lfloor>r\<rfloor>) else None)"
| "jnat _ = None"

fun jint :: "json \<Rightarrow> int option" where
  "jint (JNumber r) = (if r = real_of_int \<lfloor>r\<rfloor> then Some \<lfloor>r\<rfloor> else None)"
| "jint _ = None"

fun jstring :: "json \<Rightarrow> string option" where
  "jstring (JString s) = Some s"
| "jstring _ = None"

fun jarray :: "json \<Rightarrow> json list option" where
  "jarray (JArray xs) = Some xs"
| "jarray _ = None"

fun iterableOrEmpty :: "json option \<Rightarrow> json list option" where
  "iterableOrEmpty None = Some []"
| "iterableOrEmpty (Some JNull) = Some []"
| "iterableOrEmpty (Some (JArray xs)) = Some xs"
| "iterableOrEmpty (Some _) = None"

definition newMap :: "('k \<times> 'v) list \<Rightarrow> ('k \<times> 'v) list" where
  "newMap entries = fold (\<lambda>e m. AList.update (fst e) (snd e) m) entries []"

definition newSet :: "'a list \<Rightarrow> 'a list" where
  "newSet xs = fold setAdd xs []"

definition jnumbers :: "json \<Rightarrow> real list option" where
  "jnumbers j = do { xs \<leftarrow> jarray j; those (map jnumber xs) }"

definition jstrings :: "json list \<Rightarrow> string list option" where
  "jstrings xs = those (map jstring xs)"

fun nextEntryOfPlain :: "json \<Rightarrow> (string \<times> nat) option" where
  "nextEntryOfPlain (JArray (k # v # rest)) =
     do { w \<leftarrow> jstring k; cj \<leftarrow> jfield ''count'' v; c \<leftarrow> jnat cj; Some (w, c) }"
| "nextEntryOfPlain _ = None"

fun contentEntryOfPlain :: "json \<Rightarrow> (string \<times> string) option" where
  "contentEntryOfPlain (JArray (k # v # rest)) =
     do { d \<leftarrow> jstring k; t \<leftarrow> jstring v; Some (d, t) }"
| "contentEntryOfPlain _ = None"

definition colorOfPlain :: "json \<Rightarrow> Color option" where
  "colorOfPlain j =
     do { h \<leftarrow> jfield ''hue'' j \<bind> jnumber;
          s \<leftarrow> jfield ''saturation'' j \<bind> jnumber;
          b \<leftarrow> jfield ''brightness'' j \<bind> jnumber;
          a \<leftarrow> jfield ''alpha'' j \<bind> jnumber;
          Some \<lparr>hue = h, saturation = s, brightness = b, alpha = a\<rparr> }"

definition patternOfPlain :: "json \<Rightarrow> HolographicPattern option" where
  "patternOfPlain j =
     do { i \<leftarrow> jfield ''intensity'' j \<bind> jnumbers;
          p \<leftarrow> jfield ''phase'' j \<bind> jnumbers;
          Some \<lparr>intensity = i, pphase = p\<rparr> }"

definition nodeOfPlain :: "json \<Rightarrow> WordNode option" where
  "nodeOfPlain value =
     do { w \<leftarrow> jfield ''word'' value \<bind> jstring;
          c \<leftarrow> jfield ''count'' value \<bind> jnat;
          col \<leftarrow> jfield ''color'' value \<bind> colorOfPlain;
          la \<leftarrow> jfield ''lastAccessed'' value \<bind> jint;
          s \<leftarrow> jfield ''strength'' value \<bind> jnumber;
          nextEntries \<leftarrow> iterableOrEmpty (jfield ''next'' value);
          nextMap \<leftarrow> those (map nextEntryOfPlain nextEntries);
          docs \<leftarrow> iterableOrEmpty (jfield ''documents'' value) \<bind> jstrings;
          ent \<leftarrow> iterableOrEmpty (jfield ''entangledNodes'' value) \<bind> jstrings;
          pos \<leftarrow> jfield ''position'' value;
          x \<leftarrow> jfield ''x'' pos \<bind> jnumber;
          y \<leftarrow> jfield ''y'' pos \<bind> jnumber;
          z \<leftarrow> jfield ''z'' pos \<bind> jnumber;
          qs \<leftarrow> jfield ''quantumState'' value;
          amp \<leftarrow> jfield ''amplitude'' qs;
          re \<leftarrow> jfield ''re'' amp \<bind> jnumber;
          im \<leftarrow> jfield ''im'' amp \<bind> jnumber;
          ph \<leftarrow> jfield ''phase'' qs \<bind> jnumber;
          pat \<leftarrow> jfield ''holographicPattern'' value \<bind> patternOfPlain;
          Some \<lparr>word = w, count = c, next' = newMap nextMap, color = col,
                documents = newSet docs, lastAccessed = la, strength = s,
                quantumState = \<lparr>amplitude = Complex re im, phase = ph\<rparr>,
                holographicPattern = pat, entangledNodes = newSet ent,
                position = \<lparr>vx = x, vy = y, vz = z\<rparr>\<rparr> }"

fun nodeEntryOfPlain :: "json \<Rightarrow> (string \<times> WordNode) option" where
  "nodeEntryOfPlain (JArray (k # v # rest)) =
     do { key \<leftarrow> jstring k; node \<leftarrow> nodeOfPlain v; Some (key, node) }"
| "nodeEntryOfPlain _ = None"

definition memoryOfPlain :: "json \<Rightarrow> Memory option" where
  "memoryOfPlain parsed =
     do { nodeEntries \<leftarrow> jfield ''nodes'' parsed \<bind> jarray;
          ns \<leftarrow> those (map nodeEntryOfPlain nodeEntries);
          td \<leftarrow> jfield ''totalDocuments'' parsed \<bind> jnat;
          lc \<leftarrow> jfield ''lastConsolidation'' parsed \<bind> jint;
          qc \<leftarrow> jfield ''quantumCoherence'' parsed \<bind> jnumber;
          contentEntries \<leftarrow> iterableOrEmpty (jfield ''documentContents'' parsed);
          contents \<leftarrow> those (map contentEntryOfPlain contentEntries);
          Some \<lparr>nodes = newMap ns, totalDocuments = td, lastConsolidation = lc,
                quantumCoherence = qc, documentContents = newMap contents\<rparr> }"

section \<open>Persistence: the chunks in \<open>localStorage\<close>\<close>

text \<open>
  \<open>localStorage\<close> is a map from keys to strings. \<open>setItem\<close> can throw (an exceeded quota, a
  disabled store); whether it stores is the parameter \<open>accepts store key value\<close>, and
  \<open>saveMemoryChunk\<close> catches the exception and only logs it. The key of chunk \<open>index\<close> is the
  prefix followed by the decimal digits of \<open>index\<close>.
\<close>

type_synonym storage = "string \<rightharpoonup> string"


definition digitChar :: "nat \<Rightarrow> char" where
  "digitChar d = ''0123456789'' ! d"

fun decimal :: "nat \<Rightarrow> string" where
  "decimal n = (if n < 10 then [digitChar n] else decimal (n div 10) @ [digitChar (n mod 10)])"

definition chunkKey :: "nat \<Rightarrow> string" where
  "chunkKey index = MEMORY_KEY_PREFIX @ decimal index"


definition loadMemoryChunk :: "nat \<Rightarrow> storage \<Rightarrow> string option" where
  "loadMemoryChunk index store = store (chunkKey index)"

text \<open>\<open>for (i = 0; i < s.length; i += CHUNK_SIZE) chunks.push(s.slice(i, i + CHUNK_SIZE))\<close>.\<close>

definition splitChunks :: "string \<Rightarrow> string list" where
  "splitChunks s =
     map (\<lambda>j. take CHUNK_SIZE (drop (j * CHUNK_SIZE) s))
       [0..<(length s + CHUNK_SIZE - 1) div CHUNK_SIZE]"




text \<open>The loop of \<open>loadMemory\<close> from chunk \<open>index\<close> with \<open>n\<close> iterations left; \<open>if (chunk)\<close>
  fails on a missing key and on the empty string.\<close>

fun loadChunks :: "storage \<Rightarrow> nat \<Rightarrow> nat \<Rightarrow> string" where
  "loadChunks store index 0 = []"
| "loadChunks store index (Suc n) =
     (case loadMemoryChunk index store of
        None \<Rightarrow> []
      | Some chunk \<Rightarrow> if chunk = [] then [] else chunk @ loadChunks store (index + 1) n)"

text \<open>\<open>loadMemory\<close>: a failure of \<open>JSON.parse\<close> or of the rebuilding is caught and logged, and
  the memory stays as it is.\<close>

definition loadMemory :: "(string \<Rightarrow> json option) \<Rightarrow> storage \<Rightarrow> Memory \<Rightarrow> Memory" where
  "loadMemory parse store memory =
     (let serializedMemory = loadChunks store 0 MAX_CHUNKS
      in if serializedMemory = [] then memory
         else (case parse serializedMemory of
                 None \<Rightarrow> memory
               | Some parsed \<Rightarrow>
                   (case memoryOfPlain parsed of None \<Rightarrow> memory | Some loaded \<Rightarrow> loaded)))"

text \<open>What a JavaScript \<open>Map\<close> and \<open>Set\<close> guarantee of a memory: no key and no element
  occurs twice.\<close>

definition wellFormedNode :: "WordNode \<Rightarrow> bool" where
  "wellFormedNode n \<longleftrightarrow>
     distinct (map fst (next' n)) \<and> distinct (documents n) \<and> distinct (entangledNodes n)"

definition wellFormedMemory :: "Memory \<Rightarrow> bool" where
  "wellFormedMemory m \<longleftrightarrow>
     distinct (map fst (nodes m)) \<and> distinct (map fst (documentContents m)) \<and>
     list_all (\<lambda>e. wellFormedNode (snd e)) (nodes m)"


section \<open>Sample serializations for closed instances\<close>


definition quote :: string where
  "quote = [CHR 0x22]"






text \<open>
  A memory that holds eleven documents of \<open>MAX_DOCUMENT_SIZE\<close> characters each and no node
  (eleven calls of \<open>processText\<close> on a text of one word leave it so), the text
  \<open>JSON.stringify\<close> gives for it, and the restriction of the two built-ins to that value and
  that text: \<open>JSON.parse\<close> throws on every proper prefix of the text of an object.
\<close>

definition tilde :: "string \<Rightarrow> string" where
  "tilde s = concat (map (\<lambda>c. if c = CHR ''~'' then quote else [c]) s)"








section \<open>Runs of the component\<close>

text \<open>
  The memory the component starts with (the initial value of its state; \<open>now\<close> is the
  reading of \<open>Date.now()\<close> at that moment), and runs of calls of \<open>processText\<close> and
  \<open>consolidateMemory\<close> on it: each call works on the memory the previous one has set, and the
  random draws are counted through.
\<close>

definition initialMemory :: "int \<Rightarrow> Memory" where
  "initialMemory now =
     \<lparr>nodes = [], totalDocuments = 0, lastConsolidation = now, quantumCoherence = 1.0,
      documentContents = []\<rparr>"

datatype operation = Ingest "nat \<Rightarrow> int" string string | Consolidate int

fun runOperation :: "rng \<Rightarrow> operation \<Rightarrow> Memory \<times> nat \<Rightarrow> Memory \<times> nat" where
  "runOperation rnd (Ingest clock text documentId) (memory, k) =
     (let r = processText rnd clock memory k text documentId
      in (fst (snd r), fst (snd (snd r))))"
| "runOperation rnd (Consolidate now) (memory, k) = (consolidateMemory now memory, k)"

definition runOperations :: "rng \<Rightarrow> operation list \<Rightarrow> Memory \<times> nat \<Rightarrow> Memory \<times> nat" where
  "runOperations rnd ops st = fold (runOperation rnd) ops st"

text \<open>The first iteration of the loop of \<open>generateResponse\<close> on an input whose only word is
  \<open>w\<close>: no iteration when \<open>w\<close> has no node or no successor.\<close>

definition firstVisit ::
  "rng \<Rightarrow> (nat \<Rightarrow> int) \<Rightarrow> Memory \<Rightarrow> nat \<Rightarrow> string \<Rightarrow> string \<times> nodeMap \<times> nat" where
  "firstVisit rnd clock memory k w =
     (case map_of (nodes memory) w of
        None \<Rightarrow> (w, nodes memory, k)
      | Some node \<Rightarrow>
          if next' node = [] then (w, nodes memory, k)
          else generateStep rnd clock (quantumCoherence memory) 1 w node (nodes memory, k))"

text \<open>A memory whose node \<open>a\<close> has amplitude 2, the text \<open>JSON.stringify\<close> gives for it, and
  the restriction of \<open>JSON.parse\<close> to that text.\<close>

definition loudGraph :: Memory where
  "loudGraph = sampleMemory [(''a'', sampleAmplitude 2 (sampleNode ''a'' 1 0))]"

definition loudJson :: string where
  "loudJson = tilde
     (''{~nodes~:[[~a~,{~word~:~a~,~count~:1,~next~:[],''
      @ ''~color~:{~hue~:0,~saturation~:50,~brightness~:50,~alpha~:0.5},''
      @ ''~documents~:[],~lastAccessed~:0,~strength~:1,''
      @ ''~quantumState~:{~amplitude~:{~re~:2,~im~:0},~phase~:0},''
      @ ''~holographicPattern~:{~intensity~:[],~phase~:[]},''
      @ ''~entangledNodes~:[],~position~:{~x~:0,~y~:0,~z~:0}}]],''
      @ ''~totalDocuments~:0,~lastConsolidation~:0,~quantumCoherence~:1,''
      @ ''~documentContents~:[]}'')"

definition loudParse :: "string \<Rightarrow> json option" where
  "loudParse t = (if t = loudJson then Some (plainMemory loudGraph) else None)"

text \<open>The run that ingests the text \<open>a b a b\<close> into the initial memory, with every random
  draw 0.9 and the clock at 0.\<close>

definition sampleRun :: "Memory \<times> nat" where
  "sampleRun =
     runOperations (\<lambda>_. 9 / 10) [Ingest (\<lambda>_. 0) ''a b a b'' ''doc''] (initialMemory 0, 0)"

section \<open>Association lists as maps\<close>


lemma map_of_update_same: "map_of (AList.update k v al) k = Some v"
  by (simp add: update_conv')

subsection \<open>The transition table keeps its invariant\<close>

lemma sum_counts_update:
  fixes al :: "(string \<times> nat) list"
  assumes "distinct (map fst al)"
  shows "sum_list (map snd (AList.update n ((case map_of al n of None \<Rightarrow> 0 | Some c \<Rightarrow> c) + 1) al))
         = sum_list (map snd al) + 1"
  using assms
  by (induction al) (auto split: option.splits simp: update_conv' map_of_eq_None_iff image_iff)

lemma set_update_subset: "set (AList.update k v al) \<subseteq> insert (k, v) (set al)"
  by (induction al) auto

lemma words_inv_update:
  assumes "words_inv ws" "distinct (map fst (nextWords d))"
    "totalTransitions d = sum_list (map snd (nextWords d))"
  shows "words_inv (AList.update w d ws)"
  unfolding words_inv_def
proof (intro conjI ballI)
  show "distinct (map fst (AList.update w d ws))"
    using assms(1) by (simp add: words_inv_def distinct_update)
next
  fix e assume "e \<in> set (AList.update w d ws)"
  then have "e = (w, d) \<or> e \<in> set ws"
    using set_update_subset[of w d ws] by blast
  then show "case e of (w, d) \<Rightarrow> distinct (map fst (nextWords d)) \<and>
        totalTransitions d = sum_list (map snd (nextWords d))"
  proof
    assume "e = (w, d)" then show ?thesis using assms(2,3) by simp
  next
    assume "e \<in> set ws" then show ?thesis using assms(1) unfolding words_inv_def by blast
  qed
qed

lemma words_inv_lookup:
  assumes "words_inv ws" "map_of ws w = Some d"
  shows "distinct (map fst (nextWords d)) \<and> totalTransitions d = sum_list (map snd (nextWords d))"
proof -
  have "(w, d) \<in> set ws" using assms(2) by (rule map_of_SomeD)
  then show ?thesis using assms(1) unfolding words_inv_def by blast
qed
lemma addWordTransition_inv:
  assumes "words_inv (fst st)"
  shows "words_inv (fst (addWordTransition rnd c n st))"
proof -
  obtain ws k where st: "st = (ws, k)" by (cases st)
  with assms have inv: "words_inv ws" by simp
  show ?thesis
  proof (cases "map_of ws c")
    case None
    let ?d0 = "\<lparr>wd_word = c, frequency = 0, wd_hue = rnd k,
                      wd_saturation = 0.5 + rnd (k + 1) * 0.5, nextWords = [],
                      totalTransitions = 0\<rparr>"
    have inv1: "words_inv (AList.update c ?d0 ws)"
      by (rule words_inv_update) (use inv in simp_all)
    have "words_inv (AList.update c (?d0\<lparr>frequency := frequency ?d0 + 1,
                   totalTransitions := totalTransitions ?d0 + 1,
                   nextWords := AList.update n
                     ((case map_of (nextWords ?d0) n of None \<Rightarrow> 0 | Some c \<Rightarrow> c) + 1)
                     (nextWords ?d0)\<rparr>) (AList.update c ?d0 ws))"
      by (rule words_inv_update) (use inv1 in simp_all)
    then show ?thesis using None st
      by (simp add: addWordTransition_def map_of_update_same)
  next
    case (Some d)
    from words_inv_lookup[OF inv Some]
    have dd: "distinct (map fst (nextWords d))"
      and tt: "totalTransitions d = sum_list (map snd (nextWords d))" by simp_all
    have "words_inv (AList.update c (d\<lparr>frequency := frequency d + 1,
                   totalTransitions := totalTransitions d + 1,
                   nextWords := AList.update n
                     ((case map_of (nextWords d) n of None \<Rightarrow> 0 | Some c \<Rightarrow> c) + 1)
                     (nextWords d)\<rparr>) ws)"
      by (rule words_inv_update)
         (use inv dd tt sum_counts_update[OF dd, of n] in \<open>simp_all add: distinct_update\<close>)
    then show ?thesis using Some st
      by (simp add: addWordTransition_def)
  qed
qed

lemma addTransitions_inv:
  "words_inv (fst st) \<Longrightarrow> words_inv (fst (addTransitions rnd ws st))"
proof (induction rnd ws st rule: addTransitions.induct)
  case (1 rnd currentWord nextWord rest st)
  then show ?case using addWordTransition_inv[of st rnd currentWord nextWord] by simp
qed simp_all

lemma words_inv_empty: "words_inv []"
  by (simp add: words_inv_def)


lemma getNextWordProbabilities_set:
  "set (getNextWordProbabilities ws w) =
     (case map_of ws w of None \<Rightarrow> {}
      | Some d \<Rightarrow> (\<lambda>(s, c). (s, real c / real (totalTransitions d))) ` set (nextWords d))"
  by (simp add: getNextWordProbabilities_def split: option.splits)

lemma getNextWordProbabilities_sorted:
  "sorted (map (\<lambda>e. - snd e) (getNextWordProbabilities ws w))"
  by (simp add: getNextWordProbabilities_def split: option.splits)

lemma cat_scenario:
  "getNextWordProbabilities
      (fst (DocumentProcessor_processText rnd ''the cat sat. the cat ran.'' ([], 0))) ''cat''
    = [(''sat'', 1 / 2), (''ran'', 1 / 2)]"
  by (simp add: DocumentProcessor_processText_def addWordTransition_def
      getNextWordProbabilities_def tokenize_def toLowerCase_def toLowerChar_def isWordChar_def
      upperCaseLetters_def lowerCaseLetters_def)


text \<open>
  Claim C7. \<open>getNextWordProbabilities\<close> (the spec's \<open>getTransitionWeights\<close>) returns one
  pair per stored successor of the word, each successor with its transition count divided by
  the total number of outgoing transitions of the word, in descending order of probability;
  it returns the empty sequence when the word is absent or has no transitions. After
  ingesting \<open>the cat sat. the cat ran.\<close> into the empty table, the answer for \<open>cat\<close> is
  \<open>sat\<close> and \<open>ran\<close> with probability one half each.
\<close>

theorem getNextWordProbabilities_correct:
  assumes "words_inv ws"
  shows "set (getNextWordProbabilities ws w) =
           (case map_of ws w of None \<Rightarrow> {}
            | Some d \<Rightarrow> (\<lambda>(s, c). (s, real c / real (sum_list (map snd (nextWords d)))))
                          ` set (nextWords d))
         \<and> length (getNextWordProbabilities ws w) =
           (case map_of ws w of None \<Rightarrow> 0 | Some d \<Rightarrow> length (nextWords d))
         \<and> sorted_wrt (\<lambda>a b. snd a \<ge> snd b) (getNextWordProbabilities ws w)
         \<and> ((map_of ws w = None \<or> (\<exists>d. map_of ws w = Some d \<and> nextWords d = []))
              \<longrightarrow> getNextWordProbabilities ws w = [])
         \<and> getNextWordProbabilities
              (fst (DocumentProcessor_processText rnd ''the cat sat. the cat ran.'' ([], 0)))
              ''cat'' = [(''sat'', 1 / 2), (''ran'', 1 / 2)]"
proof (intro conjI)
  show "set (getNextWordProbabilities ws w) =
           (case map_of ws w of None \<Rightarrow> {}
            | Some d \<Rightarrow> (\<lambda>(s, c). (s, real c / real (sum_list (map snd (nextWords d)))))
                          ` set (nextWords d))"
  proof (cases "map_of ws w")
    case None
    then show ?thesis by (simp add: getNextWordProbabilities_set)
  next
    case (Some d)
    with words_inv_lookup[OF assms Some] show ?thesis
      by (simp add: getNextWordProbabilities_set)
  qed
  show "length (getNextWordProbabilities ws w) =
           (case map_of ws w of None \<Rightarrow> 0 | Some d \<Rightarrow> length (nextWords d))"
    by (simp add: getNextWordProbabilities_def split: option.splits)
  have "sorted_wrt (\<lambda>a b. - snd a \<le> - snd b) (getNextWordProbabilities ws w)"
    using getNextWordProbabilities_sorted[of ws w] by (simp add: sorted_map)
  then show "sorted_wrt (\<lambda>a b. snd a \<ge> snd b) (getNextWordProbabilities ws w)"
    by simp
  show "(map_of ws w = None \<or> (\<exists>d. map_of ws w = Some d \<and> nextWords d = []))
          \<longrightarrow> getNextWordProbabilities ws w = []"
    by (auto simp: getNextWordProbabilities_def)
  show "getNextWordProbabilities
              (fst (DocumentProcessor_processText rnd ''the cat sat. the cat ran.'' ([], 0)))
              ''cat'' = [(''sat'', 1 / 2), (''ran'', 1 / 2)]"
    by (rule cat_scenario)
qed

theorem getNextWordProbabilities_correct_witness:
  "words_inv [(''cat'', \<lparr>wd_word = ''cat'', frequency = 3, wd_hue = 0, wd_saturation = 1 / 2,
       nextWords = [(''sat'', 1), (''ran'', 2)], totalTransitions = 3\<rparr>)]
   \<and> getNextWordProbabilities [(''cat'', \<lparr>wd_word = ''cat'', frequency = 3, wd_hue = 0,
       wd_saturation = 1 / 2, nextWords = [(''sat'', 1), (''ran'', 2)],
       totalTransitions = 3\<rparr>)] ''cat'' = [(''ran'', 2 / 3), (''sat'', 1 / 3)]
   \<and> set (getNextWordProbabilities [(''cat'', \<lparr>wd_word = ''cat'', frequency = 3, wd_hue = 0,
       wd_saturation = 1 / 2, nextWords = [(''sat'', 1), (''ran'', 2)],
       totalTransitions = 3\<rparr>)] ''cat'') = {(''sat'', 1 / 3), (''ran'', 2 / 3)}"
proof -
  let ?ws = "[(''cat'', \<lparr>wd_word = ''cat'', frequency = 3, wd_hue = 0, wd_saturation = 1 / 2,
       nextWords = [(''sat'', Suc 0), (''ran'', 2)], totalTransitions = 3\<rparr>)]"
  have h: "words_inv ?ws" by (simp add: words_inv_def)
  have v: "getNextWordProbabilities ?ws ''cat'' = [(''ran'', 2 / 3), (''sat'', 1 / 3)]"
    by (simp add: getNextWordProbabilities_def)
  from getNextWordProbabilities_correct[OF h, of "''cat''" "\<lambda>_. 0"]
  have "set (getNextWordProbabilities ?ws ''cat'') = {(''sat'', 1 / 3), (''ran'', 2 / 3)}"
    by (simp add: insert_commute)
  with h v show ?thesis by simp
qed

section \<open>Consolidation: decay and pruning\<close>

lemma consolidateNodes_Cons:
  "consolidateNodes now ((w, node) # rest) =
     (if strength node * decayFactor now node < 0.1 then consolidateNodes now rest
      else (w, node\<lparr>strength := strength node * decayFactor now node\<rparr>) # consolidateNodes now rest)"
  by (simp add: Let_def decayFactor_def)

lemma consolidateNodes_keys: "fst ` set (consolidateNodes now ns) \<subseteq> fst ` set ns"
proof (induction ns)
  case (Cons e ns)
  obtain w n where e: "e = (w, n)" by (cases e)
  show ?case using Cons unfolding e consolidateNodes_Cons by auto
qed simp

lemma consolidateNodes_distinct:
  "distinct (map fst ns) \<Longrightarrow> distinct (map fst (consolidateNodes now ns))"
proof (induction ns)
  case (Cons e ns)
  obtain w n where e: "e = (w, n)" by (cases e)
  show ?case using Cons consolidateNodes_keys[of now ns] unfolding e consolidateNodes_Cons by auto
qed simp

lemma map_of_consolidateNodes:
  assumes "distinct (map fst ns)"
  shows "map_of (consolidateNodes now ns) w =
     (case map_of ns w of
        None \<Rightarrow> None
      | Some node \<Rightarrow>
          if strength node * decayFactor now node < 0.1 then None
          else Some (node\<lparr>strength := strength node * decayFactor now node\<rparr>))"
  using assms
proof (induction ns)
  case Nil
  then show ?case by simp
next
  case (Cons e rest)
  obtain w' node where e: "e = (w', node)" by (cases e)
  have "w' \<notin> fst ` set (consolidateNodes now rest)"
    using consolidateNodes_keys[of now rest] Cons.prems e by auto
  then have none: "map_of (consolidateNodes now rest) w' = None"
    by (simp add: map_of_eq_None_iff)
  show ?case
  proof (cases "w = w'")
    case True
    then show ?thesis using none unfolding e consolidateNodes_Cons by simp
  next
    case False
    then show ?thesis using Cons unfolding e consolidateNodes_Cons by simp
  qed
qed

lemma consolidateNodes_length: "length (consolidateNodes now ns) \<le> length ns"
proof (induction ns)
  case (Cons e ns)
  obtain w n where e: "e = (w, n)" by (cases e)
  show ?case using Cons unfolding e consolidateNodes_Cons by simp
qed simp

lemma consolidateNodes_strength:
  "(w, n) \<in> set (consolidateNodes now ns) \<Longrightarrow> 0.1 \<le> strength n"
proof (induction ns)
  case (Cons e ns)
  obtain w' n' where e: "e = (w', n')" by (cases e)
  show ?case using Cons unfolding e consolidateNodes_Cons by (auto split: if_splits)
qed simp

lemma consolidateNodes_lastAccessed:
  "(w, n) \<in> set (consolidateNodes now ns) \<Longrightarrow> \<exists>n0. (w, n0) \<in> set ns \<and> lastAccessed n0 = lastAccessed n"
proof (induction ns)
  case (Cons e ns)
  obtain w' n' where e: "e = (w', n')" by (cases e)
  show ?case using Cons unfolding e consolidateNodes_Cons by (auto split: if_splits)
qed simp

lemma decayFactor_one: "decayFactor now n = 1 \<longleftrightarrow> lastAccessed n = now"
  by (auto simp: decayFactor_def MEMORY_DECAY_RATE_def CONSOLIDATION_INTERVAL_def)

lemma strength_update_id: "(n\<lparr>strength := a\<rparr> = n) \<longleftrightarrow> a = strength n"
proof
  assume "n\<lparr>strength := a\<rparr> = n"
  then have "strength (n\<lparr>strength := a\<rparr>) = strength n" by simp
  then show "a = strength n" by simp
next
  assume "a = strength n" then show "n\<lparr>strength := a\<rparr> = n" by simp
qed

lemma consolidateNodes_fixed:
  "consolidateNodes now ms = ms \<longleftrightarrow>
     (\<forall>e \<in> set ms. strength (snd e) * decayFactor now (snd e) = strength (snd e)
        \<and> 0.1 \<le> strength (snd e))"
proof (induction ms)
  case Nil
  then show ?case by simp
next
  case (Cons e ms)
  obtain w n where e: "e = (w, n)" by (cases e)
  show ?case
  proof (cases "strength n * decayFactor now n < 0.1")
    case True
    have "length (consolidateNodes now ms) < length ((w, n) # ms)"
      using consolidateNodes_length[of now ms] by simp
    then have "consolidateNodes now ms \<noteq> (w, n) # ms" by auto
    then show ?thesis using True unfolding e consolidateNodes_Cons by auto
  next
    case False
    then show ?thesis using Cons.IH unfolding e consolidateNodes_Cons
      by (auto simp: strength_update_id)
  qed
qed

lemma consolidateNodes_idem_iff:
  "consolidateNodes now (consolidateNodes now ns) = consolidateNodes now ns \<longleftrightarrow>
     (\<forall>e \<in> set (consolidateNodes now ns). lastAccessed (snd e) = now)"
proof -
  have "\<And>e. e \<in> set (consolidateNodes now ns) \<Longrightarrow>
      (strength (snd e) * decayFactor now (snd e) = strength (snd e) \<and> 0.1 \<le> strength (snd e))
        \<longleftrightarrow> lastAccessed (snd e) = now"
  proof -
    fix e assume "e \<in> set (consolidateNodes now ns)"
    then have s: "0.1 \<le> strength (snd e)"
      using consolidateNodes_strength[of "fst e" "snd e" now ns] by simp
    then have "strength (snd e) * decayFactor now (snd e) = strength (snd e)
                 \<longleftrightarrow> decayFactor now (snd e) = 1" by simp
    with s show "(strength (snd e) * decayFactor now (snd e) = strength (snd e) \<and> 0.1 \<le> strength (snd e))
        \<longleftrightarrow> lastAccessed (snd e) = now"
      by (simp add: decayFactor_one)
  qed
  then show ?thesis unfolding consolidateNodes_fixed by blast
qed

lemma ball_consolidateNodes:
  "(\<forall>e \<in> set (consolidateNodes now ns). Q e) \<longleftrightarrow>
     (\<forall>e \<in> set ns. \<not> strength (snd e) * decayFactor now (snd e) < 0.1 \<longrightarrow>
        Q (fst e, (snd e)\<lparr>strength := strength (snd e) * decayFactor now (snd e)\<rparr>))"
proof (induction ns)
  case (Cons e ns)
  obtain w n where e: "e = (w, n)" by (cases e)
  show ?case using Cons unfolding e consolidateNodes_Cons by simp
qed simp

lemma consolidateMemory_eq_iff:
  "consolidateMemory now (consolidateMemory now m) = consolidateMemory now m \<longleftrightarrow>
   consolidateNodes now (consolidateNodes now (nodes m)) = consolidateNodes now (nodes m)"
proof
  assume "consolidateMemory now (consolidateMemory now m) = consolidateMemory now m"
  then have "nodes (consolidateMemory now (consolidateMemory now m)) = nodes (consolidateMemory now m)"
    by simp
  then show "consolidateNodes now (consolidateNodes now (nodes m)) = consolidateNodes now (nodes m)"
    by (simp add: consolidateMemory_def)
next
  assume "consolidateNodes now (consolidateNodes now (nodes m)) = consolidateNodes now (nodes m)"
  then show "consolidateMemory now (consolidateMemory now m) = consolidateMemory now m"
    by (simp add: consolidateMemory_def)
qed

text \<open>
  Claim C1 (as amended). \<open>consolidateMemory\<close> multiplies the strength of every node by its
  decay factor each time it runs and records nothing that would stop a second run from doing
  so again. Running it twice at the same instant \<open>now\<close> gives the same memory as running it
  consolidate_sample_once exactly when every node that survives the first run was last accessed at \<open>now\<close>
  (elapsed time zero, decay factor one); a node that is pruned by the first run does not
  matter.
\<close>

theorem consolidateMemory_idempotent_iff:
  "consolidateMemory now (consolidateMemory now m) = consolidateMemory now m \<longleftrightarrow>
     (\<forall>e \<in> set (nodes m).
        lastAccessed (snd e) = now \<or>
        strength (snd e) *
          exp (- 0.1 * (real_of_int (now - lastAccessed (snd e)) / (1000 * 60 * 60))) < 0.1)"
proof -
  have f: "\<And>n. exp (- 0.1 * (real_of_int (now - lastAccessed n) / (1000 * 60 * 60))) = decayFactor now n"
    by (simp add: decayFactor_def MEMORY_DECAY_RATE_def CONSOLIDATION_INTERVAL_def)
  show ?thesis
    unfolding consolidateMemory_eq_iff consolidateNodes_idem_iff f
    by (subst ball_consolidateNodes) auto
qed

theorem consolidateMemory_idempotent_iff_witness:
  "list_all (\<lambda>e. lastAccessed (snd e) = 3600000 \<or>
        strength (snd e) *
          exp (- 0.1 * (real_of_int (3600000 - lastAccessed (snd e)) / (1000 * 60 * 60))) < 0.1)
     (nodes (sampleMemory [(''a'', sampleNode ''a'' 1 3600000), (''b'', sampleNode ''b'' 0 0)]))
   \<and> consolidateMemory 3600000 (consolidateMemory 3600000
         (sampleMemory [(''a'', sampleNode ''a'' 1 3600000), (''b'', sampleNode ''b'' 0 0)]))
       = consolidateMemory 3600000
         (sampleMemory [(''a'', sampleNode ''a'' 1 3600000), (''b'', sampleNode ''b'' 0 0)])"
proof -
  let ?m = "sampleMemory [(''a'', sampleNode ''a'' 1 3600000), (''b'', sampleNode ''b'' 0 0)]"
  have h: "list_all (\<lambda>e. lastAccessed (snd e) = 3600000 \<or>
        strength (snd e) *
          exp (- 0.1 * (real_of_int (3600000 - lastAccessed (snd e)) / (1000 * 60 * 60))) < 0.1)
     (nodes ?m)"
    by (simp add: sampleMemory_def sampleNode_def)
  then have "\<forall>e \<in> set (nodes ?m).
        lastAccessed (snd e) = 3600000 \<or>
        strength (snd e) *
          exp (- 0.1 * (real_of_int (3600000 - lastAccessed (snd e)) / (1000 * 60 * 60))) < 0.1"
    unfolding list_all_iff .
  with consolidateMemory_idempotent_iff[of 3600000 ?m]
  have "consolidateMemory 3600000 (consolidateMemory 3600000 ?m) = consolidateMemory 3600000 ?m"
    by blast
  with h show ?thesis by blast
qed

text \<open>
  The claim as stated fails: a node of strength 1 last accessed one consolidation interval
  before \<open>now\<close> has strength \<open>exp (-1/10)\<close> after one run and \<open>exp (-1/5)\<close> after two.
\<close>

lemma exp_tenth: "(9 / 10 :: real) \<le> exp (- (1 / 10))"
  using exp_ge_add_one_self[of "- (1 / 10) :: real"] by simp

lemma exp_fifth: "(4 / 5 :: real) \<le> exp (- (1 / 5))"
  using exp_ge_add_one_self[of "- (1 / 5) :: real"] by simp

lemma consolidate_sample_once: "nodes (consolidateMemory 3600000 (sampleMemory [(''a'', sampleNode ''a'' 1 0)]))
   = [(''a'', (sampleNode ''a'' 1 0)\<lparr>strength := exp (- (1 / 10))\<rparr>)]"
  using exp_tenth
  by (simp add: consolidateMemory_def sampleMemory_def consolidateNodes_Cons decayFactor_def
      MEMORY_DECAY_RATE_def CONSOLIDATION_INTERVAL_def sampleNode_def)

theorem consolidateMemory_twice_counterexample:
  "map (\<lambda>e. (fst e, strength (snd e)))
      (nodes (consolidateMemory 3600000 (sampleMemory [(''a'', sampleNode ''a'' 1 0)])))
     = [(''a'', exp (- (1 / 10)))]
   \<and> map (\<lambda>e. (fst e, strength (snd e)))
      (nodes (consolidateMemory 3600000
         (consolidateMemory 3600000 (sampleMemory [(''a'', sampleNode ''a'' 1 0)]))))
     = [(''a'', exp (- (1 / 5)))]
   \<and> exp (- (1 / 5)) \<noteq> (exp (- (1 / 10)) :: real)
   \<and> consolidateMemory 3600000
         (consolidateMemory 3600000 (sampleMemory [(''a'', sampleNode ''a'' 1 0)]))
       \<noteq> consolidateMemory 3600000 (sampleMemory [(''a'', sampleNode ''a'' 1 0)])"
proof -
  let ?m = "sampleMemory [(''a'', sampleNode ''a'' 1 0)]"
  have e2: "exp (- (1 / 10)) * exp (- (1 / 10)) = (exp (- (1 / 5)) :: real)"
    by (simp add: exp_add[symmetric])
  have "nodes (consolidateMemory 3600000 (consolidateMemory 3600000 ?m))
     = consolidateNodes 3600000 (nodes (consolidateMemory 3600000 ?m))"
    by (simp add: consolidateMemory_def)
  also have "\<dots> = consolidateNodes 3600000
       [(''a'', (sampleNode ''a'' 1 0)\<lparr>strength := exp (- (1 / 10))\<rparr>)]"
    by (simp only: consolidate_sample_once)
  also have "\<dots> = [(''a'', (sampleNode ''a'' 1 0)\<lparr>strength := exp (- (1 / 5))\<rparr>)]"
    using exp_fifth e2
    by (simp add: consolidateNodes_Cons decayFactor_def
        MEMORY_DECAY_RATE_def CONSOLIDATION_INTERVAL_def sampleNode_def)
  finally have twice: "nodes (consolidateMemory 3600000 (consolidateMemory 3600000 ?m))
     = [(''a'', (sampleNode ''a'' 1 0)\<lparr>strength := exp (- (1 / 5))\<rparr>)]" .
  have ne: "exp (- (1 / 5)) \<noteq> (exp (- (1 / 10)) :: real)" by simp
  have "nodes (consolidateMemory 3600000 (consolidateMemory 3600000 ?m))
          \<noteq> nodes (consolidateMemory 3600000 ?m)"
    unfolding consolidate_sample_once twice using ne by (simp add: sampleNode_def)
  then have "consolidateMemory 3600000 (consolidateMemory 3600000 ?m) \<noteq> consolidateMemory 3600000 ?m"
    by auto
  moreover have "map (\<lambda>e. (fst e, strength (snd e))) (nodes (consolidateMemory 3600000 ?m))
     = [(''a'', exp (- (1 / 10)))]"
    unfolding consolidate_sample_once by simp
  moreover have "map (\<lambda>e. (fst e, strength (snd e)))
      (nodes (consolidateMemory 3600000 (consolidateMemory 3600000 ?m)))
     = [(''a'', exp (- (1 / 5)))]"
    unfolding twice by simp
  ultimately show ?thesis using ne by blast
qed

text \<open>
  Claim C2. For every node of the graph, \<open>consolidateMemory\<close> at time \<open>now\<close> multiplies the
  strength by \<open>exp (-0.1 * (now - lastAccessed) / CONSOLIDATION_INTERVAL)\<close>, where the interval is
  one hour (\<open>1000 * 60 * 60\<close> milliseconds); afterwards the node is absent when the resulting
  strength is below 0.1 and present, with that strength and otherwise unchanged, when it is
  at least 0.1. No node is added.
\<close>

theorem consolidateMemory_decay_prune:
  assumes "distinct (map fst (nodes m))"
  shows "map_of (nodes (consolidateMemory now m)) w =
     (case map_of (nodes m) w of
        None \<Rightarrow> None
      | Some node \<Rightarrow>
          if strength node * exp (- 0.1 * (real_of_int (now - lastAccessed node) / (1000 * 60 * 60))) < 0.1
          then None
          else Some (node\<lparr>strength := strength node *
                  exp (- 0.1 * (real_of_int (now - lastAccessed node) / (1000 * 60 * 60)))\<rparr>))"
proof -
  have f: "\<And>n. exp (- 0.1 * (real_of_int (now - lastAccessed n) / (1000 * 60 * 60))) = decayFactor now n"
    by (simp add: decayFactor_def MEMORY_DECAY_RATE_def CONSOLIDATION_INTERVAL_def)
  show ?thesis unfolding f using map_of_consolidateNodes[OF assms, of now w]
    by (simp add: consolidateMemory_def)
qed

theorem consolidateMemory_decay_prune_witness:
  "distinct (map fst (nodes (sampleMemory
       [(''a'', sampleNode ''a'' 1 0), (''b'', sampleNode ''b'' (1 / 10) 0)])))
   \<and> map_of (nodes (consolidateMemory 3600000 (sampleMemory
       [(''a'', sampleNode ''a'' 1 0), (''b'', sampleNode ''b'' (1 / 10) 0)]))) ''b'' = None
   \<and> map_of (nodes (consolidateMemory 3600000 (sampleMemory
       [(''a'', sampleNode ''a'' 1 0), (''b'', sampleNode ''b'' (1 / 10) 0)]))) ''a''
       = Some ((sampleNode ''a'' 1 0)\<lparr>strength := exp (- (1 / 10))\<rparr>)"
proof -
  let ?m = "sampleMemory [(''a'', sampleNode ''a'' 1 0), (''b'', sampleNode ''b'' (1 / 10) 0)]"
  have d: "distinct (map fst (nodes ?m))" by (simp add: sampleMemory_def)
  have b: "map_of (nodes (consolidateMemory 3600000 ?m)) ''b'' = None"
    using consolidateMemory_decay_prune[OF d, of 3600000 "''b''"]
    by (simp add: sampleMemory_def sampleNode_def)
  have a: "map_of (nodes (consolidateMemory 3600000 ?m)) ''a''
       = Some ((sampleNode ''a'' 1 0)\<lparr>strength := exp (- (1 / 10))\<rparr>)"
    using consolidateMemory_decay_prune[OF d, of 3600000 "''a''"] exp_tenth
    by (simp add: sampleMemory_def sampleNode_def)
  from d b a show ?thesis by blast
qed


section \<open>Ingest: what one step does to the node map\<close>

lemma map_of_map_entry_apply:
  "map_of (AList.map_entry k f xs) w = (if w = k then map_option f (map_of xs k) else map_of xs w)"
  by (simp add: map_of_map_entry split: option.splits)

lemma set_map_entry:
  "e \<in> set (AList.map_entry k f xs) \<Longrightarrow> e \<in> set xs \<or> (\<exists>v. (k, v) \<in> set xs \<and> e = (k, f v))"
  by (induction xs) (auto split: if_splits)

lemma fold_entangled_keys:
  "fst ` set (fold (\<lambda>e s. if e \<in> set old then AList.map_entry e g s else s) es ns) = fst ` set ns"
  by (induction es arbitrary: ns) (simp_all add: dom_map_entry)

lemma fold_entangled_lookup:
  assumes "\<And>n. g (g n) = g n"
  shows "map_of (fold (\<lambda>e s. if e \<in> set old then AList.map_entry e g s else s) es ns) w =
     (if w \<in> set es \<and> w \<in> set old then map_option g (map_of ns w) else map_of ns w)"
proof (induction es arbitrary: ns)
  case Nil
  then show ?case by simp
next
  case (Cons e es)
  show ?case
    by (simp add: Cons map_of_map_entry_apply option.map_comp comp_def assms)
qed

lemma applyQuantumOperation_keys:
  "fst ` set (applyQuantumOperation old w ns) = fst ` set ns"
  by (simp add: applyQuantumOperation_def Let_def fold_entangled_keys dom_map_entry split: option.splits)

lemma applyQuantumOperation_lookup_self:
  assumes "map_of ns w = Some node"
  shows "map_of (applyQuantumOperation old w ns) w =
     Some (node\<lparr>quantumState :=
        \<lparr>amplitude = (if cmod (amplitude (quantumState node) * 1.1) \<le> 1
                      then amplitude (quantumState node) * 1.1
                      else amplitude (quantumState node)),
         phase = (if w \<in> set (entangledNodes node) \<and> w \<in> set old
                  then js_rem (phase (quantumState node)
                               + pi * strength node / MAX_MEMORY_STRENGTH + pi) (2 * pi)
                  else js_rem (phase (quantumState node)
                               + pi * strength node / MAX_MEMORY_STRENGTH) (2 * pi))\<rparr>\<rparr>)"
  using assms
  by (simp add: applyQuantumOperation_def Let_def fold_entangled_lookup map_of_map_entry_apply)

lemma applyQuantumOperation_lookup_other:
  assumes "map_of ns w = Some node" "v \<noteq> w"
  shows "map_of (applyQuantumOperation old w ns) v =
     (if v \<in> set (entangledNodes node) \<and> v \<in> set old
      then map_option (\<lambda>en. en\<lparr>quantumState := (quantumState en)\<lparr>phase :=
              js_rem (phase (quantumState node) + pi * strength node / MAX_MEMORY_STRENGTH + pi)
                (2 * pi)\<rparr>\<rparr>) (map_of ns v)
      else map_of ns v)"
  using assms
  by (simp add: applyQuantumOperation_def Let_def fold_entangled_lookup map_of_map_entry_apply)

lemma coupleNext_keys: "fst ` set (coupleNext c n ns) = fst ` set ns"
  by (simp add: coupleNext_def Let_def dom_map_entry split_beta split: option.splits)

lemma coupleNext_lookup:
  "map_of (coupleNext c n ns) w =
     (case (map_of ns c, map_of ns n) of
        (Some node, Some nextNode) \<Rightarrow>
          if w = c then
            Some (node\<lparr>quantumState :=
                     (if n = c then snd (applyCNOTGate (quantumState node) (quantumState nextNode))
                      else quantumState node),
                   holographicPattern :=
                     holographicInterference (holographicPattern node) (holographicPattern nextNode)\<rparr>)
          else if w = n then
            Some (nextNode\<lparr>quantumState :=
                     snd (applyCNOTGate (quantumState node) (quantumState nextNode))\<rparr>)
          else map_of ns w
      | _ \<Rightarrow> map_of ns w)"
  by (auto simp: coupleNext_def Let_def map_of_map_entry_apply applyCNOTGate_def split_beta
      split: option.splits)

lemma reinforceNode_keys:
  "fst ` set (fst (reinforceNode rnd clock old d i c n (ns, k))) = fst ` set ns"
  by (simp add: reinforceNode_def Let_def coupleNext_keys dom_map_entry applyQuantumOperation_keys)

lemma reinforceNode_counter:
  "snd (reinforceNode rnd clock old d i c n (ns, k)) = k + patternSize * patternSize"
  by (simp add: reinforceNode_def Let_def)

lemma reinforceNode_quantumState:
  assumes "map_of ns c = Some node"
  defines "s' \<equiv> min (strength node + 0.1) MAX_MEMORY_STRENGTH"
    and "a \<equiv> amplitude (quantumState node)"
  defines "a1 \<equiv> (if cmod (a * 1.1) \<le> 1 then a * 1.1 else a)"
  defines "a2 \<equiv> a1 * of_real (1 / sqrt 2)"
  shows "map_option quantumState (map_of (fst (reinforceNode rnd clock old d i c n (ns, k))) c) =
     Some \<lparr>amplitude = (if n = c \<and> cmod a2 > 0.5 then - a2 else a2),
           phase = (if c \<in> set (setAdd n (entangledNodes node)) \<and> c \<in> set old
                    then js_rem (phase (quantumState node) + pi * s' / MAX_MEMORY_STRENGTH + pi) (2 * pi)
                    else js_rem (phase (quantumState node) + pi * s' / MAX_MEMORY_STRENGTH) (2 * pi))\<rparr>"
proof -
  define F1 :: "WordNode \<Rightarrow> WordNode" where "F1 = (\<lambda>node. node\<lparr>count := count node + 1,
                     documents := setAdd d (documents node),
                     lastAccessed := clock i,
                     strength := min (strength node + 0.1) MAX_MEMORY_STRENGTH,
                     entangledNodes := setAdd n (entangledNodes node)\<rparr>)"
  define ns1 where "ns1 = AList.map_entry c F1 ns"
  define ns2 where "ns2 = applyQuantumOperation old c ns1"
  have l1: "map_of ns1 c = Some (F1 node)"
    using assms(1) by (simp add: ns1_def map_of_map_entry_apply)
  have F1s: "strength (F1 node) = s'" "entangledNodes (F1 node) = setAdd n (entangledNodes node)"
    "quantumState (F1 node) = quantumState node"
    by (simp_all add: F1_def s'_def)
  have l2: "map_of ns2 c = Some ((F1 node)\<lparr>quantumState :=
        \<lparr>amplitude = a1,
         phase = (if c \<in> set (setAdd n (entangledNodes node)) \<and> c \<in> set old
                  then js_rem (phase (quantumState node) + pi * s' / MAX_MEMORY_STRENGTH + pi) (2 * pi)
                  else js_rem (phase (quantumState node) + pi * s' / MAX_MEMORY_STRENGTH) (2 * pi))\<rparr>\<rparr>)"
    unfolding ns2_def applyQuantumOperation_lookup_self[OF l1, of old] F1s a1_def a_def by simp
  have unf: "fst (reinforceNode rnd clock old d i c n (ns, k)) =
      coupleNext c n
        (AList.map_entry c
                  (\<lambda>node. node\<lparr>next' := AList.update n
                     (case map_of (next' node) n of Some c \<Rightarrow> c + 1 | None \<Rightarrow> 1)
                     (next' node)\<rparr>)
        (AList.map_entry c
                  (\<lambda>node. node\<lparr>holographicPattern :=
                     fst (createHolographicPattern rnd k (quantumState node))\<rparr>)
        (AList.map_entry c
                  (\<lambda>node. node\<lparr>quantumState := applyHadamardGate (quantumState node)\<rparr>) ns2)))"
    unfolding reinforceNode_def ns2_def ns1_def F1_def Let_def by simp
  show ?thesis
    unfolding unf
    by (simp add: coupleNext_lookup map_of_map_entry_apply l2 applyHadamardGate_def
        applyCNOTGate_def a2_def Let_def split: option.splits)
qed

text \<open>
  Claim C4 (as amended). On an ingest step that reinforces an existing node,
  \<open>applyQuantumOperation\<close> sets the phase of the node to
  \<open>(phase + \<pi> * strength / MAX_MEMORY_STRENGTH) % 2\<pi>\<close>, where \<open>strength\<close> is the strength the step
  has just raised, and adds a further \<open>\<pi>\<close> before the remainder when the word of the node is
  among its own \<open>entangledNodes\<close> and a key of \<open>memory.nodes\<close>. It multiplies the amplitude by
  1.1 only when the product has magnitude at most 1 and otherwise leaves the amplitude as
  it is: nothing is clamped to 1. Within the same step the Hadamard gate then divides the
  amplitude by \<open>sqrt 2\<close>, and the coupling negates it when the word is its own successor and
  the magnitude exceeds 0.5.
\<close>

theorem reinforcement_quantumState:
  assumes "map_of ns c = Some node"
  shows "map_option quantumState (map_of (applyQuantumOperation old c ns) c) =
     Some \<lparr>amplitude = (if cmod (amplitude (quantumState node) * 1.1) \<le> 1
                        then amplitude (quantumState node) * 1.1
                        else amplitude (quantumState node)),
           phase = js_rem (phase (quantumState node) + pi * strength node / MAX_MEMORY_STRENGTH
                      + (if c \<in> set (entangledNodes node) \<and> c \<in> set old then pi else 0)) (2 * pi)\<rparr>
   \<and> map_option quantumState (map_of (fst (reinforceNode rnd clock old d i c n (ns, k))) c) =
     Some \<lparr>amplitude =
             (let a1 = (if cmod (amplitude (quantumState node) * 1.1) \<le> 1
                        then amplitude (quantumState node) * 1.1
                        else amplitude (quantumState node)) * of_real (1 / sqrt 2)
              in if n = c \<and> cmod a1 > 0.5 then - a1 else a1),
           phase = js_rem (phase (quantumState node)
                      + pi * min (strength node + 0.1) MAX_MEMORY_STRENGTH / MAX_MEMORY_STRENGTH
                      + (if c \<in> set (setAdd n (entangledNodes node)) \<and> c \<in> set old then pi else 0))
                     (2 * pi)\<rparr>"
proof
  show "map_option quantumState (map_of (applyQuantumOperation old c ns) c) =
     Some \<lparr>amplitude = (if cmod (amplitude (quantumState node) * 1.1) \<le> 1
                        then amplitude (quantumState node) * 1.1
                        else amplitude (quantumState node)),
           phase = js_rem (phase (quantumState node) + pi * strength node / MAX_MEMORY_STRENGTH
                      + (if c \<in> set (entangledNodes node) \<and> c \<in> set old then pi else 0)) (2 * pi)\<rparr>"
    unfolding applyQuantumOperation_lookup_self[OF assms, of old] by simp
  show "map_option quantumState (map_of (fst (reinforceNode rnd clock old d i c n (ns, k))) c) =
     Some \<lparr>amplitude =
             (let a1 = (if cmod (amplitude (quantumState node) * 1.1) \<le> 1
                        then amplitude (quantumState node) * 1.1
                        else amplitude (quantumState node)) * of_real (1 / sqrt 2)
              in if n = c \<and> cmod a1 > 0.5 then - a1 else a1),
           phase = js_rem (phase (quantumState node)
                      + pi * min (strength node + 0.1) MAX_MEMORY_STRENGTH / MAX_MEMORY_STRENGTH
                      + (if c \<in> set (setAdd n (entangledNodes node)) \<and> c \<in> set old then pi else 0))
                     (2 * pi)\<rparr>"
    unfolding reinforceNode_quantumState[OF assms, of rnd clock old d i n k] Let_def by simp
qed

theorem reinforcement_quantumState_witness:
  "map_of [(''a'', sampleAmplitude (1 / 2) (sampleNode ''a'' 1 0))] ''a''
      = Some (sampleAmplitude (1 / 2) (sampleNode ''a'' 1 0))
   \<and> map_option (\<lambda>n. amplitude (quantumState n))
        (map_of (applyQuantumOperation [''a''] ''a''
           [(''a'', sampleAmplitude (1 / 2) (sampleNode ''a'' 1 0))]) ''a'') = Some (11 / 20)
   \<and> map_option (\<lambda>n. amplitude (quantumState n))
        (map_of (fst (reinforceNode (\<lambda>_. 0) (\<lambda>_. 0) [''a''] ''doc'' 0 ''a'' ''b''
           ([(''a'', sampleAmplitude (1 / 2) (sampleNode ''a'' 1 0))], 0))) ''a'')
        = Some (11 / 20 * of_real (1 / sqrt 2))"
proof -
  let ?node = "sampleAmplitude (1 / 2) (sampleNode ''a'' 1 0)"
  have h: "map_of [(''a'', ?node)] ''a'' = Some ?node" by simp
  have q: "amplitude (quantumState ?node) = 1 / 2" by (simp add: sampleAmplitude_def)
  have c: "cmod (1 / 2 * 1.1) \<le> 1" by (simp add: norm_mult norm_divide)
  note t = reinforcement_quantumState[OF h, of "[''a'']" "\<lambda>_. 0" "\<lambda>_. 0" "''doc''" 0 "''b''" 0]
  have 1: "map_option (\<lambda>n. amplitude (quantumState n))
        (map_of (applyQuantumOperation [''a''] ''a'' [(''a'', ?node)]) ''a'') = Some (11 / 20)"
    using t[THEN conjunct1] c unfolding q
    by (cases "map_of (applyQuantumOperation [''a''] ''a'' [(''a'', ?node)]) ''a''") auto
  have 2: "map_option (\<lambda>n. amplitude (quantumState n))
        (map_of (fst (reinforceNode (\<lambda>_. 0) (\<lambda>_. 0) [''a''] ''doc'' 0 ''a'' ''b''
           ([(''a'', ?node)], 0))) ''a'') = Some (11 / 20 * of_real (1 / sqrt 2))"
    using t[THEN conjunct2] c unfolding q Let_def
    by (cases "map_of (fst (reinforceNode (\<lambda>_. 0) (\<lambda>_. 0) [''a''] ''doc'' 0 ''a'' ''b''
           ([(''a'', ?node)], 0))) ''a''") auto
  from h 1 2 show ?thesis by blast
qed

text \<open>
  The claim as stated fails on the amplitude: at amplitude 0.95 the product 1.045 exceeds 1,
  so \<open>applyQuantumOperation\<close> keeps 0.95 where the claim has \<open>min (1.1 * 0.95) 1 = 1\<close>, and the
  step ends with magnitude \<open>0.95 / sqrt 2\<close>.
\<close>

lemma sqrt2_gt: "19 / 20 / sqrt 2 \<noteq> (1::real)"
proof -
  have "1 < sqrt (2::real)" by simp
  then have "19 / 20 < sqrt (2::real)" by linarith
  then have "19 / 20 / sqrt 2 < (1::real)" by (simp add: pos_divide_less_eq)
  then show ?thesis by linarith
qed

theorem reinforcement_clamp_counterexample:
  "map_option (\<lambda>n. cmod (amplitude (quantumState n)))
        (map_of (applyQuantumOperation [''a''] ''a''
           [(''a'', sampleAmplitude (19 / 20) (sampleNode ''a'' 1 0))]) ''a'') = Some (19 / 20)
   \<and> map_option (\<lambda>n. cmod (amplitude (quantumState n)))
        (map_of (fst (reinforceNode (\<lambda>_. 0) (\<lambda>_. 0) [''a''] ''doc'' 0 ''a'' ''b''
           ([(''a'', sampleAmplitude (19 / 20) (sampleNode ''a'' 1 0))], 0))) ''a'')
        = Some (19 / 20 / sqrt 2)
   \<and> min (1.1 * cmod (19 / 20)) 1 = 1
   \<and> 19 / 20 \<noteq> (1::real) \<and> 19 / 20 / sqrt 2 \<noteq> (1::real)"
proof -
  let ?node = "sampleAmplitude (19 / 20) (sampleNode ''a'' 1 0)"
  have h: "map_of [(''a'', ?node)] ''a'' = Some ?node" by simp
  have q: "amplitude (quantumState ?node) = 19 / 20" by (simp add: sampleAmplitude_def)
  have c: "\<not> cmod (19 / 20 * 1.1) \<le> 1" by (simp add: norm_mult norm_divide)
  have n: "cmod (19 / 20 * of_real (1 / sqrt 2)) = 19 / 20 / sqrt 2"
    by (simp add: norm_mult norm_divide)
  have 1: "map_option (\<lambda>n. cmod (amplitude (quantumState n)))
        (map_of (applyQuantumOperation [''a''] ''a'' [(''a'', ?node)]) ''a'') = Some (19 / 20)"
    unfolding applyQuantumOperation_lookup_self[OF h, of "[''a'']"] q using c
    by (simp add: norm_divide)
  have 2: "map_option (\<lambda>n. cmod (amplitude (quantumState n)))
        (map_of (fst (reinforceNode (\<lambda>_. 0) (\<lambda>_. 0) [''a''] ''doc'' 0 ''a'' ''b''
           ([(''a'', ?node)], 0))) ''a'') = Some (19 / 20 / sqrt 2)"
    using reinforceNode_quantumState[OF h, of "\<lambda>_. 0" "\<lambda>_. 0" "[''a'']" "''doc''" 0 "''b''" 0] c n
    unfolding q
    by (cases "map_of (fst (reinforceNode (\<lambda>_. 0) (\<lambda>_. 0) [''a''] ''doc'' 0 ''a'' ''b''
           ([(''a'', ?node)], 0))) ''a''") auto
  have 3: "min (1.1 * cmod (19 / 20)) 1 = 1" by (simp add: norm_divide)
  from 1 2 3 sqrt2_gt show ?thesis by simp
qed

section \<open>Ingest: a bound on the amplitudes\<close>

lemma ampBoundI: "(\<And>w n. (w, n) \<in> set ns \<Longrightarrow> cmod (amplitude (quantumState n)) \<le> b) \<Longrightarrow> ampBound b ns"
  unfolding ampBound_def by auto

lemma ampBoundD: "ampBound b ns \<Longrightarrow> (w, n) \<in> set ns \<Longrightarrow> cmod (amplitude (quantumState n)) \<le> b"
  unfolding ampBound_def by force

lemma ampBound_map_entry:
  assumes "ampBound b ns"
    and "\<And>v. (k, v) \<in> set ns \<Longrightarrow> cmod (amplitude (quantumState (f v))) \<le> b"
  shows "ampBound b (AList.map_entry k f ns)"
proof (rule ampBoundI)
  fix w n assume "(w, n) \<in> set (AList.map_entry k f ns)"
  then consider "(w, n) \<in> set ns" | v where "(k, v) \<in> set ns" "(w, n) = (k, f v)"
    using set_map_entry[of "(w, n)" k f ns] by blast
  then show "cmod (amplitude (quantumState n)) \<le> b"
  proof cases
    case 1 then show ?thesis using assms(1) by (rule ampBoundD[rotated])
  next
    case 2 then show ?thesis using assms(2) by simp
  qed
qed

lemma ampBound_update:
  assumes "ampBound b ns" "cmod (amplitude (quantumState v)) \<le> b"
  shows "ampBound b (AList.update k v ns)"
proof (rule ampBoundI)
  fix w n assume "(w, n) \<in> set (AList.update k v ns)"
  then have "(w, n) = (k, v) \<or> (w, n) \<in> set ns"
    using set_update_subset[of k v ns] by blast
  then show "cmod (amplitude (quantumState n)) \<le> b"
    using assms ampBoundD[of b ns w n] by auto
qed

lemma ampBound_fold_entangled:
  assumes "ampBound b ns" "\<And>v. amplitude (quantumState (g v)) = amplitude (quantumState v)"
  shows "ampBound b (fold (\<lambda>e s. if e \<in> set old then AList.map_entry e g s else s) es ns)"
  using assms(1)
proof (induction es arbitrary: ns)
  case (Cons e es)
  have "ampBound b (AList.map_entry e g ns)"
    by (rule ampBound_map_entry[OF Cons.prems]) (simp add: assms(2) ampBoundD[OF Cons.prems])
  then show ?case using Cons by simp
qed simp

lemma ampBound_applyQuantumOperation:
  assumes "ampBound b ns" "1 \<le> b"
  shows "ampBound b (applyQuantumOperation old w ns)"
proof (cases "map_of ns w")
  case None
  then show ?thesis using assms by (simp add: applyQuantumOperation_def)
next
  case (Some node)
  then have "(w, node) \<in> set ns" by (rule map_of_SomeD)
  then have nb: "cmod (amplitude (quantumState node)) \<le> b" using assms(1) by (rule ampBoundD[rotated])
  show ?thesis
    unfolding applyQuantumOperation_def Some option.case Let_def
    apply (rule ampBound_fold_entangled)
     apply (rule ampBound_map_entry[OF assms(1)])
    using nb assms(2) apply simp
    apply simp
    done
qed

lemma ampBound_coupleNext:
  assumes "ampBound b ns"
  shows "ampBound b (coupleNext c n ns)"
proof (cases "map_of ns c")
  case None
  then show ?thesis using assms by (simp add: coupleNext_def)
next
  case (Some node)
  note c = this
  then have "(c, node) \<in> set ns" by (rule map_of_SomeD)
  then have cb: "cmod (amplitude (quantumState node)) \<le> b" using assms by (rule ampBoundD[rotated])
  show ?thesis
  proof (cases "map_of ns n")
    case None
    then show ?thesis using assms c by (simp add: coupleNext_def)
  next
    case (Some nextNode)
    then have "(n, nextNode) \<in> set ns" by (rule map_of_SomeD)
    then have nb: "cmod (amplitude (quantumState nextNode)) \<le> b" using assms by (rule ampBoundD[rotated])
    have 1: "ampBound b (AList.map_entry c
        (\<lambda>n. n\<lparr>quantumState := fst (applyCNOTGate (quantumState node) (quantumState nextNode))\<rparr>) ns)"
      by (rule ampBound_map_entry[OF assms]) (simp add: applyCNOTGate_def cb)
    have 2: "ampBound b (AList.map_entry n
        (\<lambda>n. n\<lparr>quantumState := snd (applyCNOTGate (quantumState node) (quantumState nextNode))\<rparr>)
        (AList.map_entry c
        (\<lambda>n. n\<lparr>quantumState := fst (applyCNOTGate (quantumState node) (quantumState nextNode))\<rparr>) ns))"
      by (rule ampBound_map_entry[OF 1]) (simp add: applyCNOTGate_def nb)
    show ?thesis
      unfolding coupleNext_def c Some Let_def split_beta
      apply simp
      apply (rule ampBound_map_entry[OF 2])
      using ampBoundD[OF 2] apply simp
      done
  qed
qed

lemma cmod_applyHadamardGate:
  "cmod (amplitude (applyHadamardGate q)) \<le> cmod (amplitude q)"
proof -
  have "cmod (amplitude (applyHadamardGate q)) = cmod (amplitude q) * (1 / sqrt 2)"
    by (simp add: applyHadamardGate_def Let_def norm_mult norm_divide real_sqrt_ge_zero)
  also have "\<dots> \<le> cmod (amplitude q) * 1"
    by (rule mult_left_mono) (simp_all add: field_simps)
  finally show ?thesis by simp
qed

lemma ampBound_reinforceNode:
  assumes "ampBound b ns" "1 \<le> b"
  shows "ampBound b (fst (reinforceNode rnd clock old d i c n (ns, k)))"
proof -
  have 1: "ampBound b (AList.map_entry c
                  (\<lambda>node. node\<lparr>count := count node + 1,
                     documents := setAdd d (documents node),
                     lastAccessed := clock i,
                     strength := min (strength node + 0.1) MAX_MEMORY_STRENGTH,
                     entangledNodes := setAdd n (entangledNodes node)\<rparr>) ns)" (is "ampBound b ?ns1")
    by (rule ampBound_map_entry[OF assms(1)]) (simp add: ampBoundD[OF assms(1)])
  have 2: "ampBound b (applyQuantumOperation old c ?ns1)" (is "ampBound b ?ns2")
    using 1 assms(2) by (rule ampBound_applyQuantumOperation)
  have 3: "ampBound b (AList.map_entry c
                  (\<lambda>node. node\<lparr>quantumState := applyHadamardGate (quantumState node)\<rparr>) ?ns2)"
      (is "ampBound b ?ns3")
  proof (rule ampBound_map_entry[OF 2])
    fix v assume "(c, v) \<in> set ?ns2"
    then have "cmod (amplitude (quantumState v)) \<le> b" using 2 by (rule ampBoundD[rotated])
    then show "cmod (amplitude (quantumState (v\<lparr>quantumState := applyHadamardGate (quantumState v)\<rparr>))) \<le> b"
      using cmod_applyHadamardGate[of "quantumState v"] by simp
  qed
  have 4: "ampBound b (AList.map_entry c
                  (\<lambda>node. node\<lparr>holographicPattern :=
                     fst (createHolographicPattern rnd k (quantumState node))\<rparr>) ?ns3)"
      (is "ampBound b ?ns4")
    by (rule ampBound_map_entry[OF 3]) (simp add: ampBoundD[OF 3])
  have 5: "ampBound b (AList.map_entry c
                  (\<lambda>node. node\<lparr>next' := AList.update n
                     (case map_of (next' node) n of Some c \<Rightarrow> c + 1 | None \<Rightarrow> 1)
                     (next' node)\<rparr>) ?ns4)"
      (is "ampBound b ?ns5")
    by (rule ampBound_map_entry[OF 4]) (simp add: ampBoundD[OF 4])
  have "fst (reinforceNode rnd clock old d i c n (ns, k)) = coupleNext c n ?ns5"
    unfolding reinforceNode_def Let_def by simp
  then show ?thesis using ampBound_coupleNext[OF 5, of c n] by simp
qed

lemma createNode_amplitude:
  assumes "\<And>j. 0 \<le> rnd j \<and> rnd j < 1"
  shows "cmod (amplitude (quantumState (fst (createNode rnd clock d i c n k)))) \<le> sqrt 2"
proof -
  have a: "amplitude (quantumState (fst (createNode rnd clock d i c n k))) = Complex (rnd k) (rnd (k + 1))"
    by (simp add: createNode_def createQuantumState_def Let_def split_beta)
  have "(rnd k)\<^sup>2 \<le> 1" "(rnd (k + 1))\<^sup>2 \<le> 1"
    using assms[of k] assms[of "k + 1"] by (simp_all add: power_le_one)
  then have "(rnd k)\<^sup>2 + (rnd (k + 1))\<^sup>2 \<le> 2" by linarith
  then show ?thesis unfolding a cmod_def by (simp add: real_sqrt_le_iff)
qed

lemma ampBound_processPair:
  assumes "ampBound b (fst st)" "sqrt 2 \<le> b" "\<And>j. 0 \<le> rnd j \<and> rnd j < 1"
  shows "ampBound b (fst (processPair rnd clock old d i c n st))"
proof (cases "map_of (fst st) c = None")
  case True
  have "cmod (amplitude (quantumState (fst (createNode rnd clock d i c n (snd st))))) \<le> b"
    using createNode_amplitude[OF assms(3)] assms(2) by (rule order_trans)
  then show ?thesis using True assms(1)
    by (simp add: processPair_def split_beta ampBound_update)
next
  case False
  have "1 \<le> sqrt (2::real)" by simp
  then have "1 \<le> b" using assms(2) by linarith
  from ampBound_reinforceNode[OF assms(1) this, of rnd clock old d i c n "snd st"]
  show ?thesis unfolding processPair_def if_not_P[OF False] by simp
qed

lemma ampBound_processPairs:
  assumes "ampBound b (fst st)" "sqrt 2 \<le> b" "\<And>j. 0 \<le> rnd j \<and> rnd j < 1"
  shows "ampBound b (fst (processPairs rnd clock old d i ws st))"
  using assms(1)
proof (induction ws arbitrary: i st)
  case Nil
  then show ?case by simp
next
  case (Cons c ws)
  show ?case
  proof (cases ws)
    case Nil
    then show ?thesis using Cons.prems by simp
  next
    case (Cons n rest)
    have "ampBound b (fst (processPair rnd clock old d i c n st))"
      using Cons.prems assms(2,3) by (rule ampBound_processPair)
    from Cons.IH[OF this] show ?thesis using Cons by simp
  qed
qed

lemma ampBound_processText:
  assumes "ampBound b (nodes m)" "sqrt 2 \<le> b" "\<And>j. 0 \<le> rnd j \<and> rnd j < 1"
  shows "ampBound b (nodes (fst (snd (processText rnd clock m k t d))))"
  using ampBound_processPairs[of b "(nodes m, k)" rnd, OF _ assms(2,3)] assms(1)
  by (simp add: processText_def Let_def split_beta)

lemma ampBound_consolidateNodes:
  assumes "ampBound b ns"
  shows "ampBound b (consolidateNodes now ns)"
  using assms
proof (induction ns)
  case (Cons e ns)
  obtain w n where e: "e = (w, n)" by (cases e)
  from Cons.prems have "ampBound b ns" "cmod (amplitude (quantumState n)) \<le> b"
    unfolding e ampBound_def by simp_all
  with Cons.IH show ?case unfolding e consolidateNodes_Cons
    by (simp add: ampBound_def)
qed simp

lemmas tokenize_simps = tokenize_def toLowerCase_def toLowerChar_def isWordChar_def
  upperCaseLetters_def lowerCaseLetters_def

lemma tokenize_a_b: "tokenize ''a b'' = [''a'', ''b'']"
  by (simp add: tokenize_simps)

section \<open>Ingest: which nodes a text can touch\<close>

lemma sameUpToQuantum_eq: "map_of ns' w = map_of ns w \<Longrightarrow> sameUpToQuantum ns ns' w"
  by (simp add: sameUpToQuantum_def split: option.splits)

lemma sameUpToQuantum_trans:
  assumes "sameUpToQuantum a b w" "sameUpToQuantum b c w"
  shows "sameUpToQuantum a c w"
proof (cases "map_of a w")
  case None
  then show ?thesis using assms by (simp add: sameUpToQuantum_def split: option.splits)
next
  case (Some n)
  then obtain n' where b: "map_of b w = Some n'" and 1: "n' = n\<lparr>quantumState := quantumState n'\<rparr>"
    using assms(1) by (auto simp: sameUpToQuantum_def split: option.splits)
  then obtain n'' where c: "map_of c w = Some n''" and 2: "n'' = n'\<lparr>quantumState := quantumState n''\<rparr>"
    using assms(2) by (auto simp: sameUpToQuantum_def split: option.splits)
  have "n'' = n\<lparr>quantumState := quantumState n''\<rparr>"
    by (subst 2, subst 1) simp
  then show ?thesis using Some c by (simp add: sameUpToQuantum_def)
qed

lemma sameUpToQuantum_map_entry_other:
  "w \<noteq> k \<Longrightarrow> sameUpToQuantum ns (AList.map_entry k f ns) w"
  by (rule sameUpToQuantum_eq) (simp add: map_of_map_entry_apply)

lemma sameUpToQuantum_applyQuantumOperation:
  assumes "w \<noteq> c"
  shows "sameUpToQuantum ns (applyQuantumOperation old c ns) w"
proof (cases "map_of ns c")
  case None
  then show ?thesis by (simp add: applyQuantumOperation_def sameUpToQuantum_eq)
next
  case (Some node)
  show ?thesis
    unfolding sameUpToQuantum_def applyQuantumOperation_lookup_other[OF Some assms]
    by (simp split: option.splits)
qed

lemma sameUpToQuantum_coupleNext:
  assumes "w \<noteq> c"
  shows "sameUpToQuantum ns (coupleNext c n ns) w"
  unfolding sameUpToQuantum_def coupleNext_lookup using assms
  by (simp split: option.splits)

lemma sameUpToQuantum_reinforceNode:
  assumes "w \<noteq> c"
  shows "sameUpToQuantum ns (fst (reinforceNode rnd clock old d i c n (ns, k))) w"
proof -
  let ?ns1 = "AList.map_entry c
                  (\<lambda>node. node\<lparr>count := count node + 1,
                     documents := setAdd d (documents node),
                     lastAccessed := clock i,
                     strength := min (strength node + 0.1) MAX_MEMORY_STRENGTH,
                     entangledNodes := setAdd n (entangledNodes node)\<rparr>) ns"
  let ?ns2 = "applyQuantumOperation old c ?ns1"
  let ?ns3 = "AList.map_entry c
                  (\<lambda>node. node\<lparr>quantumState := applyHadamardGate (quantumState node)\<rparr>) ?ns2"
  let ?ns4 = "AList.map_entry c
                  (\<lambda>node. node\<lparr>holographicPattern :=
                     fst (createHolographicPattern rnd k (quantumState node))\<rparr>) ?ns3"
  let ?ns5 = "AList.map_entry c
                  (\<lambda>node. node\<lparr>next' := AList.update n
                     (case map_of (next' node) n of Some c \<Rightarrow> c + 1 | None \<Rightarrow> 1)
                     (next' node)\<rparr>) ?ns4"
  have e: "fst (reinforceNode rnd clock old d i c n (ns, k)) = coupleNext c n ?ns5"
    unfolding reinforceNode_def Let_def by simp
  have "sameUpToQuantum ns ?ns1 w" using assms by (rule sameUpToQuantum_map_entry_other)
  also have "sameUpToQuantum ?ns1 ?ns2 w" using assms by (rule sameUpToQuantum_applyQuantumOperation)
  also (sameUpToQuantum_trans) have "sameUpToQuantum ?ns2 ?ns3 w" using assms by (rule sameUpToQuantum_map_entry_other)
  also (sameUpToQuantum_trans) have "sameUpToQuantum ?ns3 ?ns4 w" using assms by (rule sameUpToQuantum_map_entry_other)
  also (sameUpToQuantum_trans) have "sameUpToQuantum ?ns4 ?ns5 w" using assms by (rule sameUpToQuantum_map_entry_other)
  also (sameUpToQuantum_trans) have "sameUpToQuantum ?ns5 (coupleNext c n ?ns5) w" using assms by (rule sameUpToQuantum_coupleNext)
  finally (sameUpToQuantum_trans) show ?thesis unfolding e .
qed

lemma sameUpToQuantum_processPair:
  assumes "w \<noteq> c"
  shows "sameUpToQuantum (fst st) (fst (processPair rnd clock old d i c n st)) w"
proof (cases "map_of (fst st) c = None")
  case True
  then show ?thesis using assms
    by (simp add: processPair_def split_beta sameUpToQuantum_eq update_conv')
next
  case False
  show ?thesis unfolding processPair_def if_not_P[OF False]
    using sameUpToQuantum_reinforceNode[OF assms, of "fst st" rnd clock old d i n "snd st"] by simp
qed

lemma processPair_keys:
  "fst ` set (fst (processPair rnd clock old d i c n st)) = insert c (fst ` set (fst st))"
proof (cases "map_of (fst st) c = None")
  case True
  then show ?thesis by (simp add: processPair_def split_beta dom_update)
next
  case False
  then have "c \<in> fst ` set (fst st)" by (simp add: map_of_eq_None_iff)
  then show ?thesis unfolding processPair_def if_not_P[OF False]
    using reinforceNode_keys[of rnd clock old d i c n "fst st" "snd st"] by auto
qed

lemma processPairs_keys:
  "fst ` set (fst (processPairs rnd clock old d i ws st)) = fst ` set (fst st) \<union> set (butlast ws)"
proof (induction ws arbitrary: i st)
  case Nil
  then show ?case by simp
next
  case (Cons c ws)
  show ?case
  proof (cases ws)
    case Nil
    then show ?thesis by simp
  next
    case (Cons n rest)
    show ?thesis using Cons.IH[of "i + 1" "processPair rnd clock old d i c n st"]
      unfolding Cons by (simp add: processPair_keys)
  qed
qed

lemma sameUpToQuantum_processPairs:
  assumes "w \<notin> set (butlast ws)"
  shows "sameUpToQuantum (fst st) (fst (processPairs rnd clock old d i ws st)) w"
  using assms
proof (induction ws arbitrary: i st)
  case Nil
  then show ?case by (simp add: sameUpToQuantum_eq)
next
  case (Cons c ws)
  show ?case
  proof (cases ws)
    case Nil
    then show ?thesis by (simp add: sameUpToQuantum_eq)
  next
    case (Cons n rest)
    from Cons.prems have wc: "w \<noteq> c" and wr: "w \<notin> set (butlast ws)" unfolding Cons by auto
    have "sameUpToQuantum (fst st) (fst (processPair rnd clock old d i c n st)) w"
      using wc by (rule sameUpToQuantum_processPair)
    also have "sameUpToQuantum (fst (processPair rnd clock old d i c n st))
        (fst (processPairs rnd clock old d (i + 1) ws (processPair rnd clock old d i c n st))) w"
      using wr by (rule Cons.IH)
    finally (sameUpToQuantum_trans) show ?thesis unfolding Cons by simp
  qed
qed

lemma reinforceNode_next_amplitude:
  assumes "map_of ns c = Some node" "map_of ns n = Some nextNode" "n \<noteq> c"
  defines "a \<equiv> amplitude (quantumState node)"
  defines "a2 \<equiv> (if cmod (a * 1.1) \<le> 1 then a * 1.1 else a) * of_real (1 / sqrt 2)"
  shows "map_option (\<lambda>x. amplitude (quantumState x))
           (map_of (fst (reinforceNode rnd clock old d i c n (ns, k))) n) =
         Some (if cmod a2 > 0.5 then - amplitude (quantumState nextNode)
               else amplitude (quantumState nextNode))"
proof -
  define F1 :: "WordNode \<Rightarrow> WordNode" where "F1 = (\<lambda>node. node\<lparr>count := count node + 1,
                     documents := setAdd d (documents node),
                     lastAccessed := clock i,
                     strength := min (strength node + 0.1) MAX_MEMORY_STRENGTH,
                     entangledNodes := setAdd n (entangledNodes node)\<rparr>)"
  define ns1 where "ns1 = AList.map_entry c F1 ns"
  define ns2 where "ns2 = applyQuantumOperation old c ns1"
  have l1: "map_of ns1 c = Some (F1 node)"
    using assms(1) by (simp add: ns1_def map_of_map_entry_apply)
  have l1n: "map_of ns1 n = Some nextNode"
    using assms(2,3) by (simp add: ns1_def map_of_map_entry_apply)
  have F1s: "quantumState (F1 node) = quantumState node"
    by (simp add: F1_def)
  obtain p where l2: "map_of ns2 c = Some ((F1 node)\<lparr>quantumState :=
        \<lparr>amplitude = (if cmod (a * 1.1) \<le> 1 then a * 1.1 else a), phase = p\<rparr>\<rparr>)"
    unfolding ns2_def applyQuantumOperation_lookup_self[OF l1, of old] F1s a_def by simp
  obtain nn where l2n: "map_of ns2 n = Some nn"
      and nn: "amplitude (quantumState nn) = amplitude (quantumState nextNode)"
    unfolding ns2_def applyQuantumOperation_lookup_other[OF l1 assms(3), of old] l1n
    by (cases "n \<in> set (entangledNodes (F1 node)) \<and> n \<in> set old") simp_all
  have unf: "fst (reinforceNode rnd clock old d i c n (ns, k)) =
      coupleNext c n
        (AList.map_entry c
                  (\<lambda>node. node\<lparr>next' := AList.update n
                     (case map_of (next' node) n of Some c \<Rightarrow> c + 1 | None \<Rightarrow> 1)
                     (next' node)\<rparr>)
        (AList.map_entry c
                  (\<lambda>node. node\<lparr>holographicPattern :=
                     fst (createHolographicPattern rnd k (quantumState node))\<rparr>)
        (AList.map_entry c
                  (\<lambda>node. node\<lparr>quantumState := applyHadamardGate (quantumState node)\<rparr>) ns2)))"
    unfolding reinforceNode_def ns2_def ns1_def F1_def Let_def by simp
  show ?thesis
    unfolding unf using assms(3) nn
    by (simp add: coupleNext_lookup map_of_map_entry_apply l2 l2n applyHadamardGate_def
        applyCNOTGate_def a2_def Let_def)
qed

lemma processText_nodes:
  "nodes (fst (snd (processText rnd clock m k t d))) =
     fst (processPairs rnd clock (map fst (nodes m)) d 0 (tokenize (take MAX_DOCUMENT_SIZE t))
            (nodes m, k))"
  by (simp add: processText_def Let_def split_beta)

text \<open>
  Claim C10 (as amended). Ingest of a text with fewer than two tokens leaves the node map
  unchanged. In general the keys after ingest are the keys before together with the words
  that occur as the first element of a consecutive token pair, so a final token that occurs
  nowhere else gets no node. For every other word the node, if there is one, keeps all its
  fields except possibly \<open>quantumState\<close>: the phase shift of entangled nodes and the coupling
  with the successor do change the quantum state of nodes whose word is not the first
  element of any pair.
\<close>

theorem processText_nodes_touched:
  "(length (tokenize (take MAX_DOCUMENT_SIZE t)) < 2 \<longrightarrow>
       nodes (fst (snd (processText rnd clock m k t d))) = nodes m)
   \<and> fst ` set (nodes (fst (snd (processText rnd clock m k t d)))) =
       fst ` set (nodes m) \<union> set (butlast (tokenize (take MAX_DOCUMENT_SIZE t)))
   \<and> (w \<notin> set (butlast (tokenize (take MAX_DOCUMENT_SIZE t))) \<longrightarrow>
       sameUpToQuantum (nodes m) (nodes (fst (snd (processText rnd clock m k t d)))) w)
   \<and> (last (tokenize (take MAX_DOCUMENT_SIZE t)) \<notin> set (butlast (tokenize (take MAX_DOCUMENT_SIZE t)))
        \<and> last (tokenize (take MAX_DOCUMENT_SIZE t)) \<notin> fst ` set (nodes m) \<longrightarrow>
       last (tokenize (take MAX_DOCUMENT_SIZE t))
         \<notin> fst ` set (nodes (fst (snd (processText rnd clock m k t d)))))"
proof (intro conjI impI)
  assume "length (tokenize (take MAX_DOCUMENT_SIZE t)) < 2"
  then consider "tokenize (take MAX_DOCUMENT_SIZE t) = []"
    | x where "tokenize (take MAX_DOCUMENT_SIZE t) = [x]"
    by (cases "tokenize (take MAX_DOCUMENT_SIZE t)"; cases "tl (tokenize (take MAX_DOCUMENT_SIZE t))") auto
  then show "nodes (fst (snd (processText rnd clock m k t d))) = nodes m"
    unfolding processText_nodes by cases simp_all
next
  show "fst ` set (nodes (fst (snd (processText rnd clock m k t d)))) =
       fst ` set (nodes m) \<union> set (butlast (tokenize (take MAX_DOCUMENT_SIZE t)))"
    unfolding processText_nodes processPairs_keys by simp
next
  assume "w \<notin> set (butlast (tokenize (take MAX_DOCUMENT_SIZE t)))"
  then show "sameUpToQuantum (nodes m) (nodes (fst (snd (processText rnd clock m k t d)))) w"
    unfolding processText_nodes
    using sameUpToQuantum_processPairs[of w _ "(nodes m, k)"] by simp
next
  assume "last (tokenize (take MAX_DOCUMENT_SIZE t)) \<notin> set (butlast (tokenize (take MAX_DOCUMENT_SIZE t)))
        \<and> last (tokenize (take MAX_DOCUMENT_SIZE t)) \<notin> fst ` set (nodes m)"
  then show "last (tokenize (take MAX_DOCUMENT_SIZE t))
         \<notin> fst ` set (nodes (fst (snd (processText rnd clock m k t d))))"
    unfolding processText_nodes processPairs_keys by simp
qed

lemma tokenize_a: "tokenize ''a'' = [''a'']"
  by (simp add: tokenize_simps)

theorem processText_nodes_touched_witness:
  "''b'' \<notin> set (butlast (tokenize (take MAX_DOCUMENT_SIZE ''a b'')))
   \<and> sameUpToQuantum
        (nodes (sampleMemory [(''a'', sampleNode ''a'' 1 0), (''b'', sampleNode ''b'' 1 0)]))
        (nodes (fst (snd (processText (\<lambda>_. 0) (\<lambda>_. 0)
           (sampleMemory [(''a'', sampleNode ''a'' 1 0), (''b'', sampleNode ''b'' 1 0)])
           0 ''a b'' ''doc'')))) ''b''
   \<and> length (tokenize (take MAX_DOCUMENT_SIZE ''a'')) < 2
   \<and> nodes (fst (snd (processText (\<lambda>_. 0) (\<lambda>_. 0)
           (sampleMemory [(''a'', sampleNode ''a'' 1 0), (''b'', sampleNode ''b'' 1 0)])
           0 ''a'' ''doc'')))
      = nodes (sampleMemory [(''a'', sampleNode ''a'' 1 0), (''b'', sampleNode ''b'' 1 0)])"
proof -
  let ?m = "sampleMemory [(''a'', sampleNode ''a'' 1 0), (''b'', sampleNode ''b'' 1 0)]"
  have h1: "''b'' \<notin> set (butlast (tokenize (take MAX_DOCUMENT_SIZE ''a b'')))"
    by (simp add: MAX_DOCUMENT_SIZE_def tokenize_a_b)
  have h2: "length (tokenize (take MAX_DOCUMENT_SIZE ''a'')) < 2"
    by (simp add: MAX_DOCUMENT_SIZE_def tokenize_a)
  from processText_nodes_touched[of "''a b''" "\<lambda>_. 0" "\<lambda>_. 0" ?m 0 "''doc''" "''b''"] h1
  have 1: "sameUpToQuantum (nodes ?m)
        (nodes (fst (snd (processText (\<lambda>_. 0) (\<lambda>_. 0) ?m 0 ''a b'' ''doc'')))) ''b''"
    by blast
  from processText_nodes_touched[of "''a''" "\<lambda>_. 0" "\<lambda>_. 0" ?m 0 "''doc''" "''b''"] h2
  have 2: "nodes (fst (snd (processText (\<lambda>_. 0) (\<lambda>_. 0) ?m 0 ''a'' ''doc''))) = nodes ?m"
    by blast
  from h1 1 h2 2 show ?thesis by blast
qed

text \<open>
  The part of the claim that only first elements of pairs are updated fails: ingesting
  \<open>a b\<close> into a memory that has both words flips the sign of the amplitude of \<open>b\<close>, the final
  token.
\<close>

lemma half_lt_inv_sqrt2: "(1 / 2 :: real) < 1 / sqrt 2"
proof -
  have "sqrt 2 < sqrt (4::real)" unfolding real_sqrt_less_iff by simp
  then have "sqrt 2 < (2::real)" by simp
  then show ?thesis by (simp add: field_simps)
qed

theorem processText_updates_last_token_counterexample:
  "''b'' \<notin> set (butlast (tokenize ''a b''))
   \<and> map_option (\<lambda>x. amplitude (quantumState x))
        (map_of (nodes (sampleMemory [(''a'', sampleNode ''a'' 1 0), (''b'', sampleNode ''b'' 1 0)]))
           ''b'') = Some 1
   \<and> map_option (\<lambda>x. amplitude (quantumState x))
        (map_of (nodes (fst (snd (processText (\<lambda>_. 0) (\<lambda>_. 0)
           (sampleMemory [(''a'', sampleNode ''a'' 1 0), (''b'', sampleNode ''b'' 1 0)])
           0 ''a b'' ''doc'')))) ''b'') = Some (- 1)"
proof -
  let ?ns = "[(''a'', sampleNode ''a'' 1 0), (''b'', sampleNode ''b'' 1 0)]"
  have n: "nodes (fst (snd (processText (\<lambda>_. 0) (\<lambda>_. 0) (sampleMemory ?ns) 0 ''a b'' ''doc'')))
      = fst (reinforceNode (\<lambda>_. 0) (\<lambda>_. 0) [''a'', ''b''] ''doc'' 0 ''a'' ''b'' (?ns, 0))"
    by (simp add: processText_nodes MAX_DOCUMENT_SIZE_def tokenize_a_b processPair_def sampleMemory_def)
  have a: "map_of ?ns ''a'' = Some (sampleNode ''a'' 1 0)" by simp
  have b: "map_of ?ns ''b'' = Some (sampleNode ''b'' 1 0)" by simp
  have c: "\<not> cmod (1 * 1.1) \<le> 1" by (simp add: norm_divide)
  have m: "cmod (1 * complex_of_real (1 / sqrt 2)) = 1 / sqrt 2"
    by (simp add: norm_divide norm_mult)
  have q: "amplitude (quantumState (sampleNode w 1 0)) = 1" for w
    by (simp add: sampleNode_def)
  have ne: "''b'' \<noteq> ''a''" by simp
  have 3: "map_option (\<lambda>x. amplitude (quantumState x))
        (map_of (fst (reinforceNode (\<lambda>_. 0) (\<lambda>_. 0) [''a'', ''b''] ''doc'' 0 ''a'' ''b'' (?ns, 0))) ''b'')
        = Some (- 1)"
    unfolding reinforceNode_next_amplitude[OF a b ne, of "\<lambda>_. 0" "\<lambda>_. 0" "[''a'', ''b'']" "''doc''" 0 0] q
    using c m half_lt_inv_sqrt2 by simp
  have 1: "''b'' \<notin> set (butlast (tokenize ''a b''))" by (simp add: tokenize_a_b)
  have 2: "map_option (\<lambda>x. amplitude (quantumState x)) (map_of (nodes (sampleMemory ?ns)) ''b'') = Some 1"
    by (simp add: sampleMemory_def q)
  from 1 2 3 show ?thesis unfolding n by blast
qed

section \<open>Ingest: oversized input\<close>

text \<open>
  Claim C8 (as amended). For a text longer than \<open>MAX_DOCUMENT_SIZE = 1000000\<close> characters,
  \<open>processText\<close> writes one warning with \<open>console.warn\<close> and otherwise behaves exactly as on the
  first 1000000 characters of the text: these are what is tokenized, ingested and stored as
  the document content. The caller receives neither a warning condition nor an error: the
  call completes with \<open>undefined\<close>, as it does on every other input.
\<close>

theorem processText_oversized:
  assumes "length t > MAX_DOCUMENT_SIZE"
  shows "MAX_DOCUMENT_SIZE = 1000000
    \<and> processText rnd clock m k t d =
        ([oversizeWarning], snd (processText rnd clock m k (take 1000000 t) d))
    \<and> fst (processText rnd clock m k (take 1000000 t) d) = []
    \<and> nodes (fst (snd (processText rnd clock m k t d))) =
        fst (processPairs rnd clock (map fst (nodes m)) d 0 (tokenize (take 1000000 t)) (nodes m, k))
    \<and> map_of (documentContents (fst (snd (processText rnd clock m k t d)))) d
        = Some (take 1000000 t)
    \<and> snd (snd (snd (processText rnd clock m k t d))) = ReturnsUndefined"
  using assms
  by (simp add: processText_def Let_def split_beta MAX_DOCUMENT_SIZE_def update_conv')

theorem processText_oversized_witness:
  "length (replicate 1000001 (CHR ''a'')) > MAX_DOCUMENT_SIZE
   \<and> fst (processText (\<lambda>_. 0) (\<lambda>_. 0) (sampleMemory []) 0 (replicate 1000001 (CHR ''a'')) ''doc'')
       = [oversizeWarning]
   \<and> map_of (documentContents (fst (snd
        (processText (\<lambda>_. 0) (\<lambda>_. 0) (sampleMemory []) 0 (replicate 1000001 (CHR ''a'')) ''doc''))))
        ''doc'' = Some (replicate 1000000 (CHR ''a''))
   \<and> snd (snd (snd
        (processText (\<lambda>_. 0) (\<lambda>_. 0) (sampleMemory []) 0 (replicate 1000001 (CHR ''a'')) ''doc'')))
       = ReturnsUndefined"
proof -
  have h: "length (replicate 1000001 (CHR ''a'')) > MAX_DOCUMENT_SIZE"
    unfolding length_replicate MAX_DOCUMENT_SIZE_def by simp
  have t: "take 1000000 (replicate 1000001 (CHR ''a'')) = replicate 1000000 (CHR ''a'')"
    unfolding take_replicate by simp
  note r = processText_oversized[OF h, of "\<lambda>_. 0" "\<lambda>_. 0" "sampleMemory []" 0 "''doc''"]
  have 1: "fst (processText (\<lambda>_. 0) (\<lambda>_. 0) (sampleMemory []) 0 (replicate 1000001 (CHR ''a'')) ''doc'')
       = [oversizeWarning]"
    using r by (simp only: fst_conv)
  have 2: "map_of (documentContents (fst (snd
        (processText (\<lambda>_. 0) (\<lambda>_. 0) (sampleMemory []) 0 (replicate 1000001 (CHR ''a'')) ''doc''))))
        ''doc'' = Some (replicate 1000000 (CHR ''a''))"
    using r unfolding t by blast
  have 3: "snd (snd (snd
        (processText (\<lambda>_. 0) (\<lambda>_. 0) (sampleMemory []) 0 (replicate 1000001 (CHR ''a'')) ''doc'')))
       = ReturnsUndefined"
    using r by blast
  from h 1 2 3 show ?thesis by blast
qed

text \<open>
  The claim as stated fails in its middle part: no warning condition reaches the caller. On
  a text of 1000001 characters the call completes with \<open>undefined\<close> and hands the caller
  exactly what the call on the first 1000000 characters hands it; the two differ only in
  the line written to the console.
\<close>

lemma processText_snd_truncated:
  "snd (processText rnd clock m k t d) = snd (processText rnd clock m k (take MAX_DOCUMENT_SIZE t) d)"
  by (simp add: processText_def Let_def split_beta)

theorem processText_warning_not_raised_counterexample:
  "MAX_DOCUMENT_SIZE < length (replicate 1000001 (CHR ''a''))
   \<and> snd (snd (snd
        (processText (\<lambda>_. 0) (\<lambda>_. 0) (sampleMemory []) 0 (replicate 1000001 (CHR ''a'')) ''doc'')))
       = ReturnsUndefined
   \<and> snd (processText (\<lambda>_. 0) (\<lambda>_. 0) (sampleMemory []) 0 (replicate 1000001 (CHR ''a'')) ''doc'')
       = snd (processText (\<lambda>_. 0) (\<lambda>_. 0) (sampleMemory []) 0 (replicate 1000000 (CHR ''a'')) ''doc'')
   \<and> fst (processText (\<lambda>_. 0) (\<lambda>_. 0) (sampleMemory []) 0 (replicate 1000001 (CHR ''a'')) ''doc'')
       = [oversizeWarning]
   \<and> fst (processText (\<lambda>_. 0) (\<lambda>_. 0) (sampleMemory []) 0 (replicate 1000000 (CHR ''a'')) ''doc'')
       = []"
proof -
  have h: "MAX_DOCUMENT_SIZE < length (replicate 1000001 (CHR ''a''))"
    unfolding length_replicate MAX_DOCUMENT_SIZE_def by simp
  have t: "take MAX_DOCUMENT_SIZE (replicate 1000001 (CHR ''a'')) = replicate 1000000 (CHR ''a'')"
    unfolding take_replicate MAX_DOCUMENT_SIZE_def by simp
  have 1: "snd (snd (snd
        (processText (\<lambda>_. 0) (\<lambda>_. 0) (sampleMemory []) 0 (replicate 1000001 (CHR ''a'')) ''doc'')))
       = ReturnsUndefined"
    by (simp add: processText_def Let_def split_beta)
  have 2: "snd (processText (\<lambda>_. 0) (\<lambda>_. 0) (sampleMemory []) 0 (replicate 1000001 (CHR ''a'')) ''doc'')
       = snd (processText (\<lambda>_. 0) (\<lambda>_. 0) (sampleMemory []) 0 (replicate 1000000 (CHR ''a'')) ''doc'')"
    using processText_snd_truncated[of "\<lambda>_. 0" "\<lambda>_. 0" "sampleMemory []" 0
        "replicate 1000001 (CHR ''a'')" "''doc''"]
    unfolding t .
  have 3: "fst (processText (\<lambda>_. 0) (\<lambda>_. 0) (sampleMemory []) 0 (replicate 1000001 (CHR ''a'')) ''doc'')
       = [oversizeWarning]"
    using h by (simp add: processText_def Let_def split_beta)
  have "\<not> MAX_DOCUMENT_SIZE < length (replicate 1000000 (CHR ''a''))"
    unfolding length_replicate MAX_DOCUMENT_SIZE_def by simp
  then have 4: "fst (processText (\<lambda>_. 0) (\<lambda>_. 0) (sampleMemory []) 0 (replicate 1000000 (CHR ''a'')) ''doc'')
       = []"
    by (simp add: processText_def Let_def split_beta)
  from h 1 2 3 4 show ?thesis by blast
qed

section \<open>Generation: the draw of the next word\<close>















section \<open>Generation: prompts without a known word\<close>

lemma generateLoop_unknown:
  assumes "map_of (fst st) currentWord = None"
  shows "generateLoop rnd clock coherence currentWord response st = (response, st)"
  by (subst generateLoop.simps) (simp add: assms)

lemma generateResponse_last_unknown:
  assumes "tokenize input \<noteq> []" "map_of (nodes m) (last (tokenize input)) = None"
  shows "generateResponse rnd clock m k input = (joinWords (tokenize input), m, k)"
  using assms by (simp add: generateResponse_def Let_def generateLoop_unknown)

lemma tokenize_empty: "tokenize [] = []"
  by (simp add: tokenize_def toLowerCase_def)

lemma tokenize_zzznotaword: "tokenize ''zzznotaword'' = [''zzznotaword'']"
  by (simp add: tokenize_simps)

lemma tokenize_Zzz: "tokenize ''Zzz!'' = [''zzz'']"
  by (simp add: tokenize_simps)

text \<open>
  Claim C9 (as amended). \<open>generateResponse\<close> on a prompt without tokens returns the empty
  string. On a prompt whose last token is not a key of the node map it returns the tokens
  of the prompt, lower-cased and joined by single spaces, with no continuation, and leaves
  the memory as it is; this is the prompt itself when the prompt is a lower-case word such as
  \<open>zzznotaword\<close>. In particular the empty prompt gives the empty string.
\<close>

theorem generateResponse_unknown:
  "(tokenize input = [] \<longrightarrow> fst (generateResponse rnd clock m k input) = [])
   \<and> (tokenize input \<noteq> [] \<and> map_of (nodes m) (last (tokenize input)) = None \<longrightarrow>
        generateResponse rnd clock m k input = (joinWords (tokenize input), m, k))
   \<and> fst (generateResponse rnd clock m k []) = []
   \<and> (map_of (nodes m) ''zzznotaword'' = None \<longrightarrow>
        fst (generateResponse rnd clock m k ''zzznotaword'') = ''zzznotaword'')"
proof (intro conjI impI)
  assume "tokenize input = []"
  then show "fst (generateResponse rnd clock m k input) = []"
    by (simp add: generateResponse_def)
next
  assume "tokenize input \<noteq> [] \<and> map_of (nodes m) (last (tokenize input)) = None"
  then show "generateResponse rnd clock m k input = (joinWords (tokenize input), m, k)"
    using generateResponse_last_unknown by blast
next
  show "fst (generateResponse rnd clock m k []) = []"
    by (simp add: generateResponse_def tokenize_empty)
next
  assume "map_of (nodes m) ''zzznotaword'' = None"
  then show "fst (generateResponse rnd clock m k ''zzznotaword'') = ''zzznotaword''"
    using generateResponse_last_unknown[of "''zzznotaword''" m rnd clock k]
    by (simp add: tokenize_zzznotaword)
qed

theorem generateResponse_unknown_witness:
  "map_of (nodes (sampleMemory [(''cat'', sampleNode ''cat'' 1 0)])) ''zzznotaword'' = None
   \<and> fst (generateResponse (\<lambda>_. 0) (\<lambda>_. 0) (sampleMemory [(''cat'', sampleNode ''cat'' 1 0)]) 0
        ''zzznotaword'') = ''zzznotaword''
   \<and> tokenize ''...'' = []
   \<and> fst (generateResponse (\<lambda>_. 0) (\<lambda>_. 0) (sampleMemory [(''cat'', sampleNode ''cat'' 1 0)]) 0
        ''...'') = []"
proof -
  let ?m = "sampleMemory [(''cat'', sampleNode ''cat'' 1 0)]"
  have h: "map_of (nodes ?m) ''zzznotaword'' = None" by (simp add: sampleMemory_def)
  have e: "tokenize ''...'' = []" by (simp add: tokenize_simps)
  from generateResponse_unknown[of "''...''" "\<lambda>_. 0" "\<lambda>_. 0" ?m 0] h e
  have 1: "fst (generateResponse (\<lambda>_. 0) (\<lambda>_. 0) ?m 0 ''zzznotaword'') = ''zzznotaword''"
    and 2: "fst (generateResponse (\<lambda>_. 0) (\<lambda>_. 0) ?m 0 ''...'') = []"
    by blast+
  from h 1 e 2 show ?thesis by blast
qed

text \<open>
  The prompt is not returned unchanged in general: \<open>Zzz!\<close> comes back as \<open>zzz\<close>.
\<close>

theorem generateResponse_lowercases_counterexample:
  "map_of (nodes (sampleMemory [])) (last (tokenize ''Zzz!'')) = None
   \<and> fst (generateResponse (\<lambda>_. 0) (\<lambda>_. 0) (sampleMemory []) 0 ''Zzz!'') = ''zzz''
   \<and> ''zzz'' \<noteq> ''Zzz!''"
proof -
  have h: "map_of (nodes (sampleMemory [])) (last (tokenize ''Zzz!'')) = None"
    by (simp add: sampleMemory_def)
  have t: "tokenize ''Zzz!'' \<noteq> []" by (simp add: tokenize_Zzz)
  have "fst (generateResponse (\<lambda>_. 0) (\<lambda>_. 0) (sampleMemory []) 0 ''Zzz!'') = ''zzz''"
    unfolding generateResponse_last_unknown[OF t h] by (simp add: tokenize_Zzz)
  with h show ?thesis by simp
qed

section \<open>Persistence: rebuilding what was written\<close>

lemma update_fresh_append: "k \<notin> fst ` set acc \<Longrightarrow> AList.update k v acc = acc @ [(k, v)]"
  by (induction acc) auto

lemma fold_update_append:
  "distinct (map fst (acc @ es)) \<Longrightarrow>
     fold (\<lambda>e m. AList.update (fst e) (snd e) m) es acc = acc @ es"
proof (induction es arbitrary: acc)
  case Nil
  then show ?case by simp
next
  case (Cons e es)
  from Cons.prems have f: "fst e \<notin> fst ` set acc" by auto
  from Cons.prems have d: "distinct (map fst ((acc @ [e]) @ es))" by auto
  have "AList.update (fst e) (snd e) acc = acc @ [e]"
    using update_fresh_append[OF f, of "snd e"] by simp
  then show ?case using Cons.IH[OF d] by simp
qed

lemma newMap_distinct: "distinct (map fst es) \<Longrightarrow> newMap es = es"
  unfolding newMap_def using fold_update_append[of "[]" es] by simp

lemma fold_setAdd_append: "distinct (acc @ xs) \<Longrightarrow> fold setAdd xs acc = acc @ xs"
proof (induction xs arbitrary: acc)
  case Nil
  then show ?case by simp
next
  case (Cons x xs)
  from Cons.prems have "x \<notin> set acc" and d: "distinct ((acc @ [x]) @ xs)" by auto
  then have "setAdd x acc = acc @ [x]" by (simp add: setAdd_def)
  then show ?case using Cons.IH[OF d] by simp
qed

lemma newSet_distinct: "distinct xs \<Longrightarrow> newSet xs = xs"
  unfolding newSet_def using fold_setAdd_append[of "[]" xs] by simp

lemma those_map_Some:
  assumes "\<And>x. x \<in> set xs \<Longrightarrow> f (h x) = Some x"
  shows "those (map (\<lambda>x. f (h x)) xs) = Some xs"
  using assms by (induction xs) simp_all

lemma jnat_real: "jnat (JNumber (real n)) = Some n"
  by simp

lemma jint_real: "jint (JNumber (real_of_int i)) = Some i"
  by simp

lemma jstrings_JString: "jstrings (map JString xs) = Some xs"
  unfolding jstrings_def map_map comp_def by (rule those_map_Some) simp

lemma jnumbers_JNumber: "jnumbers (JArray (map JNumber xs)) = Some xs"
proof -
  have "those (map (\<lambda>x. jnumber (JNumber x)) xs) = Some xs" by (rule those_map_Some) simp
  then show ?thesis by (simp add: jnumbers_def comp_def)
qed

lemma nextEntries_plain:
  "those (map nextEntryOfPlain
      (map (\<lambda>e. JArray [JString (fst e),
                      JObject [(''word'', JString (fst e)), (''count'', JNumber (real (snd e)))]]) es))
   = Some es"
  unfolding map_map comp_def by (rule those_map_Some) simp

lemma contentEntries_plain:
  "those (map contentEntryOfPlain (map (\<lambda>e. JArray [JString (fst e), JString (snd e)]) es)) = Some es"
  unfolding map_map comp_def by (rule those_map_Some) simp

lemma colorOfPlain_plain:
  "colorOfPlain (JObject [(''hue'', JNumber (hue c)), (''saturation'', JNumber (saturation c)),
       (''brightness'', JNumber (brightness c)), (''alpha'', JNumber (alpha c))]) = Some c"
  by (simp add: colorOfPlain_def)

lemma patternOfPlain_plain:
  "patternOfPlain (JObject [(''intensity'', JArray (map JNumber (intensity p))),
       (''phase'', JArray (map JNumber (pphase p)))]) = Some p"
  by (simp add: patternOfPlain_def jnumbers_JNumber)

lemma nodeOfPlain_plainNode:
  assumes "wellFormedNode n"
  shows "nodeOfPlain (plainNode n) = Some n"
proof -
  from assms have m: "newMap (next' n) = next' n" and d: "newSet (documents n) = documents n"
    and e: "newSet (entangledNodes n) = entangledNodes n"
    by (simp_all add: wellFormedNode_def newMap_distinct newSet_distinct)
  show ?thesis
    unfolding nodeOfPlain_def plainNode_def
    by (simp add: nextEntries_plain jstrings_JString colorOfPlain_plain patternOfPlain_plain m d e
        del: map_map)
qed

lemma nodeEntries_plain:
  assumes "list_all (\<lambda>e. wellFormedNode (snd e)) es"
  shows "those (map nodeEntryOfPlain (map (\<lambda>e. JArray [JString (fst e), plainNode (snd e)]) es))
     = Some es"
  unfolding map_map comp_def
proof (rule those_map_Some)
  fix x assume "x \<in> set es"
  then have "wellFormedNode (snd x)" using assms by (simp add: list_all_iff)
  then show "nodeEntryOfPlain (JArray [JString (fst x), plainNode (snd x)]) = Some x"
    by (simp add: nodeOfPlain_plainNode)
qed

lemma memoryOfPlain_plainMemory:
  assumes "wellFormedMemory m"
  shows "memoryOfPlain (plainMemory m) = Some m"
proof -
  from assms have n: "newMap (nodes m) = nodes m"
    and c: "newMap (documentContents m) = documentContents m"
    and w: "list_all (\<lambda>e. wellFormedNode (snd e)) (nodes m)"
    by (simp_all add: wellFormedMemory_def newMap_distinct)
  show ?thesis
    unfolding memoryOfPlain_def plainMemory_def
    by (simp add: nodeEntries_plain[OF w] contentEntries_plain n c del: map_map)
qed

section \<open>Persistence: the chunk codec\<close>

lemma decimal_small: "n < 10 \<Longrightarrow> decimal n = [digitChar n]"
  by simp

lemma digitChar_inj: "i < 10 \<Longrightarrow> j < 10 \<Longrightarrow> digitChar i = digitChar j \<Longrightarrow> i = j"
proof -
  assume a: "i < 10" "j < 10" "digitChar i = digitChar j"
  have d: "distinct ''0123456789''" by simp
  have "length ''0123456789'' = 10" by simp
  with a d show "i = j" unfolding digitChar_def by (metis nth_eq_iff_index_eq)
qed

lemma chunkKey_inj:
  assumes "i < MAX_CHUNKS" "j < MAX_CHUNKS"
  shows "chunkKey i = chunkKey j \<longleftrightarrow> i = j"
proof -
  from assms have "i < 10" "j < 10" by (simp_all add: MAX_CHUNKS_def)
  then show ?thesis
    using digitChar_inj[of i j] by (auto simp: chunkKey_def simp del: decimal.simps simp add: decimal_small)
qed











lemma splitChunks_bounded: "c \<in> set (splitChunks s) \<Longrightarrow> length c \<le> CHUNK_SIZE"
  by (auto simp: splitChunks_def)


















section \<open>The magnitude of the amplitudes\<close>

lemma tokenize_a_b_a_b: "tokenize ''a b a b'' = [''a'', ''b'', ''a'', ''b'']"
  by (simp add: tokenize_simps)

lemma interference_replicate:
  "map (\<lambda>i. replicate n x ! i + replicate n y ! i) [0..<n] = replicate n (x + y :: real)"
  by (simp add: list_eq_iff_nth_eq)

lemma cmod_99: "(cmod (Complex (9 / 10) (9 / 10)))\<^sup>2 = 81 / 50"
  unfolding cmod_power2 by (simp add: power2_eq_square)

lemma cmod_99_gt: "1 < cmod (Complex (9 / 10) (9 / 10))"
proof -
  have "(1::real) < 81 / 100 + 81 / 100" by simp
  then have "sqrt 1 < sqrt ((9 / 10)\<^sup>2 + (9 / 10)\<^sup>2 :: real)"
    unfolding real_sqrt_less_iff by (simp add: power2_eq_square)
  then show ?thesis unfolding cmod_def by simp
qed

lemma cmod_99_hadamard: "cmod (Complex (9 / 10) (9 / 10) / complex_of_real (sqrt 2)) = 9 / 10"
proof -
  have "cmod (Complex (9 / 10) (9 / 10)) = sqrt (81 / 50)"
    unfolding cmod_def by (simp add: power2_eq_square)
  then have "cmod (Complex (9 / 10) (9 / 10) / complex_of_real (sqrt 2)) = sqrt (81 / 50) / sqrt 2"
    by (simp add: norm_divide)
  also have "\<dots> = sqrt (81 / 100)" unfolding real_sqrt_divide[symmetric] by simp
  also have "\<dots> = sqrt ((9 / 10)\<^sup>2)" by (simp add: power2_eq_square)
  also have "\<dots> = 9 / 10" by simp
  finally show ?thesis .
qed

lemma cmod_99_not_clamped: "\<not> cmod (Complex (9 / 10) (9 / 10)) * 11 \<le> 10"
  using cmod_99_gt by simp

lemma nine_tenths_sq: "(9 / 10 :: real)\<^sup>2 = 81 / 100"
  by (simp add: power2_eq_square)

lemma foldl_replicate: "foldl (+) 0 (replicate n v) = real n * (v::real)"
proof -
  have "foldl (+) a (replicate n v) = a + real n * v" for a :: real
    by (induction n arbitrary: a) (simp_all add: algebra_simps)
  then show ?thesis by simp
qed

lemma patternSize_pos: "0 < patternSize"
  by (simp add: patternSize_def)

lemmas ingest_simps = runOperations_def processText_def MAX_DOCUMENT_SIZE_def tokenize_a_b_a_b
      processPair_def split_beta initialMemory_def Let_def createNode_def createQuantumState_def
      createHolographicPattern_def reinforceNode_def applyQuantumOperation_def coupleNext_def
      applyCNOTGate_def applyHadamardGate_def holographicInterference_def setAdd_def
      MAX_MEMORY_STRENGTH_def interference_replicate cmod_99 cmod_99_hadamard
      cmod_99_not_clamped nine_tenths_sq patternSize_pos

lemma sampleRun_nodes:
  "map (\<lambda>e. (fst e, amplitude (quantumState (snd e)), intensity (holographicPattern (snd e)),
               next' (snd e), strength (snd e), entangledNodes (snd e)))
     (nodes (fst sampleRun))
   = [(''a'', Complex (9 / 10) (9 / 10) / complex_of_real (sqrt 2),
       replicate (patternSize * patternSize) (243 / 100), [(''b'', 2)], 11 / 10, [''b'']),
      (''b'', - Complex (9 / 10) (9 / 10),
       replicate (patternSize * patternSize) (81 / 50), [(''a'', 1)], 1, [''a''])]"
  by (simp add: sampleRun_def ingest_simps split del: if_split cong: if_cong)

lemma sampleRun_intensity:
  "map (\<lambda>e. (fst e, intensity (holographicPattern (snd e)))) (nodes (fst sampleRun))
   = [(''a'', replicate (patternSize * patternSize) (243 / 100)),
      (''b'', replicate (patternSize * patternSize) (81 / 50))]"
  by (simp add: sampleRun_def ingest_simps split del: if_split cong: if_cong)

lemma sampleRun_visit:
  "fst (firstVisit (\<lambda>_. 9 / 10) (\<lambda>_. 0) (fst sampleRun) (snd sampleRun) ''b'') = ''a''
   \<and> map (\<lambda>e. (fst e, amplitude (quantumState (snd e))))
       (fst (snd (firstVisit (\<lambda>_. 9 / 10) (\<lambda>_. 0) (fst sampleRun) (snd sampleRun) ''b'')))
     = [(''a'', Complex (sqrt (243 / 100)) 0), (''b'', - Complex (9 / 10) (9 / 10))]"
  by (simp add: sampleRun_def firstVisit_def generateStep_def visitNode_def sortNextWords_def
      totalStrength_def boostOf_def entangledBoost_def strengthOr0_def reconstructHologram_def
      foldl_replicate ingest_simps split del: if_split cong: if_cong)

lemma run_consolidate_keys:
  "map fst (nodes (fst (runOperations (\<lambda>_. 9 / 10)
       [Ingest (\<lambda>_. 0) ''a b a b'' ''doc'', Consolidate 0] (initialMemory 0, 0))))
     = [''a'', ''b'']"
  by (simp add: consolidateMemory_def CONSOLIDATION_INTERVAL_def MEMORY_DECAY_RATE_def
      ingest_simps split del: if_split cong: if_cong)

lemma ampBound_runOperations:
  assumes "\<And>j. 0 \<le> rnd j \<and> rnd j < 1" "sqrt 2 \<le> b" "ampBound b (nodes (fst st))"
  shows "ampBound b (nodes (fst (runOperations rnd ops st)))"
  using assms(3) unfolding runOperations_def
proof (induction ops arbitrary: st)
  case Nil
  then show ?case by simp
next
  case (Cons op ops)
  obtain m k where st: "st = (m, k)" by (cases st)
  have "ampBound b (nodes (fst (runOperation rnd op st)))"
  proof (cases op)
    case (Ingest clock t d)
    show ?thesis unfolding st Ingest using ampBound_processText[where m = m and clock = clock and k = k and t = t and d = d, OF _ assms(2,1)] Cons.prems
      by (simp add: st Let_def)
  next
    case (Consolidate now)
    show ?thesis unfolding st Consolidate using ampBound_consolidateNodes[of b "nodes m" now] Cons.prems
      by (simp add: st consolidateMemory_def)
  qed
  from Cons.IH[OF this] show ?case by simp
qed

lemma createNode_amplitude_less:
  assumes "\<And>j. 0 \<le> rnd j \<and> rnd j < 1"
  shows "cmod (amplitude (quantumState (fst (createNode rnd clock d i c n k)))) < sqrt 2"
proof -
  have a: "amplitude (quantumState (fst (createNode rnd clock d i c n k))) = Complex (rnd k) (rnd (k + 1))"
    by (simp add: createNode_def createQuantumState_def Let_def split_beta)
  have "(rnd k)\<^sup>2 < 1" "(rnd (k + 1))\<^sup>2 < 1"
    using assms[of k] assms[of "k + 1"] by (simp_all add: power_less_one_iff abs_square_less_1)
  then have "(rnd k)\<^sup>2 + (rnd (k + 1))\<^sup>2 < 2" by linarith
  then show ?thesis unfolding a cmod_def by (simp add: real_sqrt_less_iff)
qed

lemma generateStep_selected:
  "map_option (\<lambda>n. amplitude (quantumState n))
      (map_of (fst (snd (generateStep rnd clock coherence i w node (ns, k))))
         (fst (generateStep rnd clock coherence i w node (ns, k))))
   = map_option
      (\<lambda>sel. Complex (sqrt (foldl (+) 0 (intensity (holographicPattern sel))
                              / real (length (intensity (holographicPattern sel))))) 0)
      (map_of ns (fst (generateStep rnd clock coherence i w node (ns, k))))"
  by (simp add: generateStep_def visitNode_def Let_def map_of_map_entry_apply
      reconstructHologram_def option.map_comp comp_def)

lemma loudGraph_wellFormed: "wellFormedMemory loudGraph"
  by (simp add: wellFormedMemory_def wellFormedNode_def loudGraph_def sampleMemory_def
      sampleNode_def sampleAmplitude_def)

lemma ampBound_loudGraph: "ampBound 2 (nodes loudGraph)"
  by (simp add: ampBound_def loudGraph_def sampleMemory_def sampleNode_def sampleAmplitude_def)

lemma sqrt2_le_2: "sqrt 2 \<le> (2::real)"
proof -
  have "sqrt 2 \<le> sqrt (2\<^sup>2 :: real)" unfolding real_sqrt_le_iff by simp
  then show ?thesis by simp
qed

lemma sqrt_243_gt: "sqrt 2 < cmod (Complex (sqrt (243 / 100)) 0)"
proof -
  have "sqrt 2 < sqrt (243 / 100 :: real)" unfolding real_sqrt_less_iff by simp
  then show ?thesis by (simp add: cmod_def)
qed

lemma not_ampBound:
  assumes "map (\<lambda>e. (fst e, amplitude (quantumState (snd e)))) ns = (w, z) # rest" "b < cmod z"
  shows "\<not> ampBound b ns"
proof -
  from assms(1) obtain e es where "ns = e # es" "amplitude (quantumState (snd e)) = z"
    by (auto simp: map_eq_Cons_conv)
  then show ?thesis using assms(2) by (auto simp: ampBound_def)
qed

lemma loudJson_length: "length loudJson = 396"
  by (simp add: loudJson_def tilde_def quote_def)

lemma load_loud:
  "loadMemory loudParse (Map.empty(chunkKey 0 \<mapsto> loudJson)) (initialMemory 0) = loudGraph"
proof -
  have m: "MAX_CHUNKS = Suc (Suc 8)" by (simp add: MAX_CHUNKS_def)
  have k: "chunkKey (Suc 0) \<noteq> chunkKey 0"
    using chunkKey_inj[of "Suc 0" 0] by (simp add: MAX_CHUNKS_def)
  have ne: "loudJson \<noteq> []" using loudJson_length by auto
  have l: "loadChunks (Map.empty(chunkKey 0 \<mapsto> loudJson)) 0 MAX_CHUNKS = loudJson"
    unfolding m loadChunks.simps(2) loadMemoryChunk_def using k ne by simp
  show ?thesis
    unfolding loadMemory_def Let_def l
    using ne memoryOfPlain_plainMemory[OF loudGraph_wellFormed] by (simp add: loudParse_def)
qed

lemma sqrt2_lt_cmod_2: "sqrt 2 < cmod 2"
proof -
  have "sqrt 2 < sqrt (2\<^sup>2 :: real)" unfolding real_sqrt_less_iff by simp
  then show ?thesis by simp
qed

text \<open>
  Claim C5 (as amended). A fresh node gets a complex amplitude whose real and imaginary part
  are drawn independently from \<open>[0, 1)\<close>: its magnitude is below \<open>sqrt 2\<close> and can exceed 1.
  In every memory reached from the initial memory by calls of \<open>processText\<close> (node creation,
  reinforcement, coupling) and \<open>consolidateMemory\<close> alone, in any number and order, the
  amplitude of every node has magnitude at most \<open>sqrt 2\<close>; such calls keep every bound
  \<open>b \<ge> sqrt 2\<close> that holds of the memory they start from, and reinforcement with its coupling
  keeps every bound \<open>b \<ge> 1\<close>. A generation visit replaces the amplitude of the selected node
  by the square root of the mean intensity of its holographic pattern (a non-empty one),
  and \<open>loadMemory\<close> installs the amplitudes it finds in the store. Neither keeps the bound 1
  or the bound \<open>sqrt 2\<close>.
\<close>

theorem amplitude_bound_reachable:
  assumes "\<forall>j. 0 \<le> rnd j \<and> rnd j < 1"
  shows "cmod (amplitude (quantumState (fst (createNode rnd clock d i c n k)))) < sqrt 2
    \<and> ampBound (sqrt 2) (nodes (fst (runOperations rnd ops (initialMemory t0, k0))))
    \<and> (\<forall>b. sqrt 2 \<le> b \<and> ampBound b (nodes m) \<longrightarrow>
          ampBound b (nodes (fst (snd (processText rnd clock m k t d))))
          \<and> ampBound b (nodes (consolidateMemory now m))
          \<and> ampBound b (nodes (fst (runOperations rnd ops (m, k)))))
    \<and> (\<forall>b. 1 \<le> b \<and> ampBound b ns \<longrightarrow>
          ampBound b (fst (reinforceNode rnd clock old d i c n (ns, k))))
    \<and> (\<forall>sel. map_of ns (fst (generateStep rnd clock coherence i w node (ns, k))) = Some sel
             \<and> intensity (holographicPattern sel) \<noteq> [] \<longrightarrow>
          map_option (\<lambda>n. amplitude (quantumState n))
            (map_of (fst (snd (generateStep rnd clock coherence i w node (ns, k))))
               (fst (generateStep rnd clock coherence i w node (ns, k))))
          = Some (Complex (sqrt (foldl (+) 0 (intensity (holographicPattern sel))
                                 / real (length (intensity (holographicPattern sel))))) 0))"
proof -
  have r: "\<And>j. 0 \<le> rnd j \<and> rnd j < 1" using assms by simp
  have 1: "cmod (amplitude (quantumState (fst (createNode rnd clock d i c n k)))) < sqrt 2"
    by (rule createNode_amplitude_less[OF r])
  have "ampBound (sqrt 2) (nodes (fst (initialMemory t0, k0)))"
    by (simp add: ampBound_def initialMemory_def)
  then have 2: "ampBound (sqrt 2) (nodes (fst (runOperations rnd ops (initialMemory t0, k0))))"
    by (rule ampBound_runOperations[OF r order_refl])
  have 3: "\<forall>b. sqrt 2 \<le> b \<and> ampBound b (nodes m) \<longrightarrow>
          ampBound b (nodes (fst (snd (processText rnd clock m k t d))))
          \<and> ampBound b (nodes (consolidateMemory now m))
          \<and> ampBound b (nodes (fst (runOperations rnd ops (m, k))))"
  proof (intro allI impI conjI)
    fix b assume b: "sqrt 2 \<le> b \<and> ampBound b (nodes m)"
    show "ampBound b (nodes (fst (snd (processText rnd clock m k t d))))"
      by (rule ampBound_processText[OF _ _ r]) (use b in simp_all)
    show "ampBound b (nodes (consolidateMemory now m))"
      using b by (simp add: consolidateMemory_def ampBound_consolidateNodes)
    show "ampBound b (nodes (fst (runOperations rnd ops (m, k))))"
      by (rule ampBound_runOperations[OF r]) (use b in simp_all)
  qed
  have 4: "\<forall>b. 1 \<le> b \<and> ampBound b ns \<longrightarrow>
          ampBound b (fst (reinforceNode rnd clock old d i c n (ns, k)))"
    using ampBound_reinforceNode by blast
  have 5: "\<forall>sel. map_of ns (fst (generateStep rnd clock coherence i w node (ns, k))) = Some sel
             \<and> intensity (holographicPattern sel) \<noteq> [] \<longrightarrow>
          map_option (\<lambda>n. amplitude (quantumState n))
            (map_of (fst (snd (generateStep rnd clock coherence i w node (ns, k))))
               (fst (generateStep rnd clock coherence i w node (ns, k))))
          = Some (Complex (sqrt (foldl (+) 0 (intensity (holographicPattern sel))
                                 / real (length (intensity (holographicPattern sel))))) 0)"
    by (simp add: generateStep_selected)
  from 1 2 3 4 5 show ?thesis by blast
qed

theorem amplitude_bound_reachable_witness:
  "(\<forall>j::nat. (0::real) \<le> 9 / 10 \<and> (9 / 10 :: real) < 1)
   \<and> map fst (nodes (fst (runOperations (\<lambda>_. 9 / 10)
        [Ingest (\<lambda>_. 0) ''a b a b'' ''doc'', Consolidate 0] (initialMemory 0, 0)))) = [''a'', ''b'']
   \<and> ampBound (sqrt 2) (nodes (fst (runOperations (\<lambda>_. 9 / 10)
        [Ingest (\<lambda>_. 0) ''a b a b'' ''doc'', Consolidate 0] (initialMemory 0, 0))))
   \<and> sqrt 2 \<le> (2::real)
   \<and> ampBound 2 (nodes loudGraph)
   \<and> ampBound 2 (nodes (fst (snd (processText (\<lambda>_. 9 / 10) (\<lambda>_. 0) loudGraph 0 ''a b'' ''doc''))))
   \<and> map_option (\<lambda>n. amplitude (quantumState n))
        (map_of (fst (snd (firstVisit (\<lambda>_. 9 / 10) (\<lambda>_. 0) (fst sampleRun) (snd sampleRun) ''b'')))
           ''a'')
      = Some (Complex (sqrt (243 / 100)) 0)"
proof -
  have r: "\<forall>j::nat. (0::real) \<le> (\<lambda>_. 9 / 10) j \<and> (\<lambda>_. 9 / 10 :: real) j < 1" by simp
  from sampleRun_nodes obtain na nb where
    ns: "nodes (fst sampleRun) = [(''a'', na), (''b'', nb)]"
    and ia: "intensity (holographicPattern na) = replicate (patternSize * patternSize) (243 / 100)"
    and nx: "next' nb = [(''a'', 1)]"
    by (auto simp: map_eq_Cons_conv)
  have fv: "firstVisit (\<lambda>_. 9 / 10) (\<lambda>_. 0) (fst sampleRun) (snd sampleRun) ''b''
      = generateStep (\<lambda>_. 9 / 10) (\<lambda>_. 0) (quantumCoherence (fst sampleRun)) 1 ''b'' nb
          (nodes (fst sampleRun), snd sampleRun)"
    by (simp add: firstVisit_def ns nx)
  have w: "fst (generateStep (\<lambda>_. 9 / 10) (\<lambda>_. 0) (quantumCoherence (fst sampleRun)) 1 ''b'' nb
          (nodes (fst sampleRun), snd sampleRun)) = ''a''"
    using sampleRun_visit unfolding fv by blast
  have sel: "map_of (nodes (fst sampleRun)) ''a'' = Some na" by (simp add: ns)
  have ne: "intensity (holographicPattern na) \<noteq> []"
    unfolding ia using patternSize_pos by simp
  note t = amplitude_bound_reachable[OF r, where ops = "[Ingest (\<lambda>_. 0) ''a b a b'' ''doc'', Consolidate 0]"
      and ?t0.0 = 0 and ?k0.0 = 0 and m = loudGraph and clock = "\<lambda>_. 0" and k = 0
      and t = "''a b''" and d = "''doc''"]
  from t have 2: "ampBound (sqrt 2) (nodes (fst (runOperations (\<lambda>_. 9 / 10)
        [Ingest (\<lambda>_. 0) ''a b a b'' ''doc'', Consolidate 0] (initialMemory 0, 0))))"
    by blast
  from t sqrt2_le_2 ampBound_loudGraph
  have 3: "ampBound 2 (nodes (fst (snd (processText (\<lambda>_. 9 / 10) (\<lambda>_. 0) loudGraph 0 ''a b'' ''doc''))))"
    by blast
  note u = amplitude_bound_reachable[OF r, where clock = "\<lambda>_. 0" and k = "snd sampleRun"
      and ns = "nodes (fst sampleRun)" and node = nb
      and coherence = "quantumCoherence (fst sampleRun)" and i = 1 and w = "''b''"]
  from u sel ne have "map_option (\<lambda>n. amplitude (quantumState n))
        (map_of (fst (snd (generateStep (\<lambda>_. 9 / 10) (\<lambda>_. 0) (quantumCoherence (fst sampleRun)) 1
                             ''b'' nb (nodes (fst sampleRun), snd sampleRun))))
           ''a'')
      = Some (Complex (sqrt (foldl (+) 0 (intensity (holographicPattern na))
                             / real (length (intensity (holographicPattern na))))) 0)"
    unfolding w by blast
  then have 4: "map_option (\<lambda>n. amplitude (quantumState n))
        (map_of (fst (snd (firstVisit (\<lambda>_. 9 / 10) (\<lambda>_. 0) (fst sampleRun) (snd sampleRun) ''b'')))
           ''a'')
      = Some (Complex (sqrt (243 / 100)) 0)"
    unfolding fv ia foldl_replicate using patternSize_pos by simp
  from run_consolidate_keys 2 sqrt2_le_2 ampBound_loudGraph 3 4 show ?thesis by simp
qed

text \<open>
  Three runs against the bound of the claim. Creation: with every draw 0.9, ingesting
  \<open>a b\<close> creates the node \<open>a\<close> with amplitude \<open>0.9 + 0.9i\<close>, of magnitude above 1. Generation
  visit: after ingesting \<open>a b a b\<close> (\<open>sampleRun\<close>, where every magnitude is at most \<open>sqrt 2\<close>) the
  pattern of \<open>a\<close> has intensity \<open>0.81 + 1.62 = 2.43\<close>, and the first iteration of the walk
  from \<open>b\<close> selects \<open>a\<close> and sets its amplitude to \<open>sqrt 2.43\<close>, above \<open>sqrt 2\<close>. Load: from a
  store whose chunk 0 holds the text of a memory with amplitude 2, \<open>loadMemory\<close> installs
  that amplitude.
\<close>

theorem amplitude_bound_counterexample:
  "map (\<lambda>e. (fst e, amplitude (quantumState (snd e))))
      (nodes (fst (runOperations (\<lambda>_. 9 / 10) [Ingest (\<lambda>_. 0) ''a b'' ''doc''] (initialMemory 0, 0))))
     = [(''a'', Complex (9 / 10) (9 / 10))]
   \<and> 1 < cmod (Complex (9 / 10) (9 / 10))
   \<and> \<not> ampBound 1
        (nodes (fst (runOperations (\<lambda>_. 9 / 10) [Ingest (\<lambda>_. 0) ''a b'' ''doc''] (initialMemory 0, 0))))
   \<and> sampleRun = runOperations (\<lambda>_. 9 / 10) [Ingest (\<lambda>_. 0) ''a b a b'' ''doc''] (initialMemory 0, 0)
   \<and> ampBound (sqrt 2) (nodes (fst sampleRun))
   \<and> map (\<lambda>e. (fst e, intensity (holographicPattern (snd e)))) (nodes (fst sampleRun))
     = [(''a'', replicate (patternSize * patternSize) (243 / 100)),
        (''b'', replicate (patternSize * patternSize) (81 / 50))]
   \<and> fst (firstVisit (\<lambda>_. 9 / 10) (\<lambda>_. 0) (fst sampleRun) (snd sampleRun) ''b'') = ''a''
   \<and> map (\<lambda>e. (fst e, amplitude (quantumState (snd e))))
       (fst (snd (firstVisit (\<lambda>_. 9 / 10) (\<lambda>_. 0) (fst sampleRun) (snd sampleRun) ''b'')))
     = [(''a'', Complex (sqrt (243 / 100)) 0), (''b'', - Complex (9 / 10) (9 / 10))]
   \<and> sqrt 2 < cmod (Complex (sqrt (243 / 100)) 0)
   \<and> \<not> ampBound (sqrt 2)
        (fst (snd (firstVisit (\<lambda>_. 9 / 10) (\<lambda>_. 0) (fst sampleRun) (snd sampleRun) ''b'')))
   \<and> loadMemory loudParse (Map.empty(chunkKey 0 \<mapsto> loudJson)) (initialMemory 0) = loudGraph
   \<and> map (\<lambda>e. (fst e, amplitude (quantumState (snd e)))) (nodes loudGraph) = [(''a'', 2)]
   \<and> sqrt 2 < cmod 2
   \<and> \<not> ampBound (sqrt 2)
        (nodes (loadMemory loudParse (Map.empty(chunkKey 0 \<mapsto> loudJson)) (initialMemory 0)))"
proof -
  have 1: "map (\<lambda>e. (fst e, amplitude (quantumState (snd e))))
      (nodes (fst (runOperations (\<lambda>_. 9 / 10) [Ingest (\<lambda>_. 0) ''a b'' ''doc''] (initialMemory 0, 0))))
     = [(''a'', Complex (9 / 10) (9 / 10))]"
    by (simp add: runOperations_def processText_def MAX_DOCUMENT_SIZE_def tokenize_a_b
        processPair_def split_beta initialMemory_def Let_def createNode_def createQuantumState_def)
  note 3 = not_ampBound[OF 1 cmod_99_gt]
  have r: "\<And>j::nat. (0::real) \<le> (\<lambda>_. 9 / 10) j \<and> (\<lambda>_. 9 / 10 :: real) j < 1" by simp
  have "ampBound (sqrt 2) (nodes (fst (initialMemory 0, 0::nat)))"
    by (simp add: ampBound_def initialMemory_def)
  then have 5: "ampBound (sqrt 2) (nodes (fst sampleRun))"
    unfolding sampleRun_def by (rule ampBound_runOperations[OF r order_refl])
  note v = sampleRun_visit
  note 9 = not_ampBound[OF conjunct2[OF v] sqrt_243_gt]
  have 11: "map (\<lambda>e. (fst e, amplitude (quantumState (snd e)))) (nodes loudGraph) = [(''a'', 2)]"
    by (simp add: loudGraph_def sampleMemory_def sampleNode_def sampleAmplitude_def)
  note 13 = not_ampBound[OF 11 sqrt2_lt_cmod_2]
  from 1 cmod_99_gt 3 sampleRun_def 5 sampleRun_intensity v sqrt_243_gt 9 load_loud 11
    sqrt2_lt_cmod_2 13
  show ?thesis unfolding load_loud by blast
qed

end
